theory Spec2Isabelle
  imports Complex_Main "HOL-Library.Sublist" "HOL-Library.List_Lexorder" "HOL-Library.Char_ord"
begin

section \<open>Excel interviewer: the session state machine and its scoring (backend/main.py)\<close>

text \<open>
  The development embeds \<^verbatim>\<open>backend/main.py\<close>. Conventions of the embedding:
  \<^item> a Python \<^verbatim>\<open>str\<close> is a \<^typ>\<open>string\<close>, one \<^typ>\<open>char\<close> per code point; the
    embedding covers the code points below 256. On them \<^verbatim>\<open>str.lower\<close>,
    \<^verbatim>\<open>str.upper\<close>, \<^verbatim>\<open>str.strip\<close> and the class \<^verbatim>\<open>\s\<close> are Python's: the
    letters of ASCII and of Latin-1 change case, the sharp s becomes \<^verbatim>\<open>SS\<close> in upper
    case, and the no-break space and the next-line control are spaces. The upper case of
    the micro sign and of the y with diaeresis is a code point above 255, which no other
    character of the range maps to; it is written as the character itself, which changes
    no comparison between upper-cased strings;
  \<^item> a Python \<^verbatim>\<open>float\<close> is an exact rational (\<^typ>\<open>rat\<close>): no binary rounding, no NaN,
    no infinity; \<^verbatim>\<open>round(x, 2)\<close> rounds to the nearest hundredth, ties to even;
  \<^item> the wall clock, the random session token and the replies of the language model are
    inputs of the operation that reads them;
  \<^item> the process-wide dictionary \<^verbatim>\<open>interview_sessions\<close> is a map that every operation
    takes and returns; a raised exception is a value \<open>Inl e\<close>.
\<close>

subsection \<open>Strings\<close>

definition upper_letters :: string where
  "upper_letters = ''ABCDEFGHIJKLMNOPQRSTUVWXYZ''"

definition lower_letters :: string where
  "lower_letters = ''abcdefghijklmnopqrstuvwxyz''"

text \<open>The cased letters of Latin-1, 0xC0..0xDE without the multiplication sign 0xD7, and
  0xE0..0xFE without the division sign 0xF7, in the same order.\<close>

definition latin1_upper_letters :: string where
  "latin1_upper_letters =
     [CHR 0xC0, CHR 0xC1, CHR 0xC2, CHR 0xC3, CHR 0xC4, CHR 0xC5, CHR 0xC6, CHR 0xC7,
      CHR 0xC8, CHR 0xC9, CHR 0xCA, CHR 0xCB, CHR 0xCC, CHR 0xCD, CHR 0xCE, CHR 0xCF,
      CHR 0xD0, CHR 0xD1, CHR 0xD2, CHR 0xD3, CHR 0xD4, CHR 0xD5, CHR 0xD6,
      CHR 0xD8, CHR 0xD9, CHR 0xDA, CHR 0xDB, CHR 0xDC, CHR 0xDD, CHR 0xDE]"

definition latin1_lower_letters :: string where
  "latin1_lower_letters =
     [CHR 0xE0, CHR 0xE1, CHR 0xE2, CHR 0xE3, CHR 0xE4, CHR 0xE5, CHR 0xE6, CHR 0xE7,
      CHR 0xE8, CHR 0xE9, CHR 0xEA, CHR 0xEB, CHR 0xEC, CHR 0xED, CHR 0xEE, CHR 0xEF,
      CHR 0xF0, CHR 0xF1, CHR 0xF2, CHR 0xF3, CHR 0xF4, CHR 0xF5, CHR 0xF6,
      CHR 0xF8, CHR 0xF9, CHR 0xFA, CHR 0xFB, CHR 0xFC, CHR 0xFD, CHR 0xFE]"

definition all_upper_letters :: string where
  "all_upper_letters = upper_letters @ latin1_upper_letters"

definition all_lower_letters :: string where
  "all_lower_letters = lower_letters @ latin1_lower_letters"

text \<open>The lower case of one character is one character.\<close>

definition lower_char :: "char \<Rightarrow> char" where
  "lower_char c =
     (case map_of (zip all_upper_letters all_lower_letters) c of Some d \<Rightarrow> d | None \<Rightarrow> c)"

text \<open>The upper case of one character is a string: the sharp s (0xDF) becomes two
  characters.\<close>

definition upper_char :: "char \<Rightarrow> string" where
  "upper_char c =
     (if c = CHR 0xDF then ''SS''
      else case map_of (zip all_lower_letters all_upper_letters) c of
             Some d \<Rightarrow> [d]
           | None \<Rightarrow> [c])"

text \<open>\<^verbatim>\<open>s.lower()\<close> and \<^verbatim>\<open>s.upper()\<close>.\<close>

definition lower :: "string \<Rightarrow> string" where
  "lower s = map lower_char s"

definition upper :: "string \<Rightarrow> string" where
  "upper s = concat (map upper_char s)"

text \<open>The characters below 256 that \<^verbatim>\<open>str.isspace\<close> and the class \<^verbatim>\<open>\s\<close> accept: tab,
  line feed, vertical tab, form feed, carriage return, the four separators 0x1C..0x1F,
  the blank, the next-line control 0x85 and the no-break space 0xA0.\<close>

definition isspace :: "char \<Rightarrow> bool" where
  "isspace c = (c \<in> set [CHR 0x09, CHR 0x0A, CHR 0x0B, CHR 0x0C, CHR 0x0D,
                          CHR 0x1C, CHR 0x1D, CHR 0x1E, CHR 0x1F, CHR '' '',
                          CHR 0x85, CHR 0xA0])"

text \<open>\<^verbatim>\<open>s.strip()\<close>.\<close>

definition strip :: "string \<Rightarrow> string" where
  "strip s = rev (dropWhile isspace (rev (dropWhile isspace s)))"

text \<open>\<^verbatim>\<open>sub in s\<close> on strings.\<close>

fun substring_in :: "string \<Rightarrow> string \<Rightarrow> bool" where
  "substring_in sub [] = (sub = [])"
| "substring_in sub (c # cs) = (prefix sub (c # cs) \<or> substring_in sub cs)"

text \<open>\<^verbatim>\<open>s.count(c)\<close> for a one-character needle.\<close>

definition count_char :: "char \<Rightarrow> string \<Rightarrow> nat" where
  "count_char c s = length (filter (\<lambda>d. d = c) s)"

text \<open>\<^verbatim>\<open>str(n)\<close> for a natural number, as an f-string renders it.\<close>

definition digit_char :: "nat \<Rightarrow> char" where
  "digit_char d = ''0123456789'' ! (d mod 10)"

function str_nat :: "nat \<Rightarrow> string" where
  "str_nat n = (if n < 10 then [digit_char n] else str_nat (n div 10) @ [digit_char n])"
  by pat_completeness auto
termination
  by (relation "measure id") auto

declare str_nat.simps [simp del]

text \<open>\<^verbatim>\<open>sep.join(xs)\<close>.\<close>

fun join :: "string \<Rightarrow> string list \<Rightarrow> string" where
  "join sep [] = []"
| "join sep [x] = x"
| "join sep (x # y # ys) = x @ sep @ join sep (y # ys)"

subsection \<open>Numbers\<close>

definition round_half_even :: "rat \<Rightarrow> int" where
  "round_half_even x =
     (let f = \<lfloor>x\<rfloor>; d = x - of_int f in
      if d < 1 / 2 then f else if d > 1 / 2 then f + 1 else if even f then f else f + 1)"

text \<open>\<^verbatim>\<open>round(x, 2)\<close>.\<close>

definition round2 :: "rat \<Rightarrow> rat" where
  "round2 x = of_int (round_half_even (x * 100)) / 100"

text \<open>How an f-string prints a float that \<^const>\<open>round2\<close> produced: the integer part, a point,
  and one or two decimals (\<^verbatim>\<open>6.0\<close>, \<^verbatim>\<open>8.33\<close>). Python switches to exponent notation from
  \<^verbatim>\<open>1e16\<close> on, which is not rendered here.\<close>

definition float_str :: "rat \<Rightarrow> string" where
  "float_str x =
     (let h = round_half_even (x * 100); n = nat \<bar>h\<bar>; frac = n mod 100 in
      (if h < 0 then ''-'' else '''') @ str_nat (n div 100) @ ''.'' @
      (if frac mod 10 = 0 then [digit_char (frac div 10)]
       else [digit_char (frac div 10), digit_char frac]))"

subsection \<open>Config\<close>

definition INTERVIEWER_REQUIRED_SKILLS :: "string list" where
  "INTERVIEWER_REQUIRED_SKILLS =
     [''excel'', ''formulas'', ''functions'', ''pivot tables'', ''charts'',
      ''data cleaning'', ''power query'', ''lookup'', ''index-match'',
      ''dynamic arrays'', ''vba'', ''macros'', ''goal seek'', ''solver'']"

definition MAX_QUESTIONS :: nat where "MAX_QUESTIONS = 10"
definition SKILL_MATCH_THRESHOLD :: rat where "SKILL_MATCH_THRESHOLD = 7"
definition QUESTION_TIME_LIMIT_SEC :: nat where "QUESTION_TIME_LIMIT_SEC = 120"
definition CHEATING_THRESHOLD :: rat where "CHEATING_THRESHOLD = 75 / 100"
definition CONFIDENCE_MIN :: rat where "CONFIDENCE_MIN = 4 / 10"
definition REQUIRED_SKILL_PASS_MIN :: rat where "REQUIRED_SKILL_PASS_MIN = 65 / 10"
definition SOFT_SKILL_PASS_MIN :: rat where "SOFT_SKILL_PASS_MIN = 55 / 10"

subsection \<open>Utils: normalize, extract_resume_skills, top_required_overlap\<close>

text \<open>\<^verbatim>\<open>re.sub(r"[^a-z0-9\s\-\+\./]", " ", text.lower())\<close>.\<close>

definition kept_char :: "char \<Rightarrow> bool" where
  "kept_char c = (c \<in> set (lower_letters @ ''0123456789'' @ ''-+./'') \<or> isspace c)"

definition normalize :: "string \<Rightarrow> string" where
  "normalize text = map (\<lambda>c. if kept_char c then c else CHR '' '') (lower text)"

definition known :: "string list" where
  "known =
     [''excel'', ''microsoft excel'', ''vlookup'', ''xlookup'', ''index match'', ''index-match'',
      ''pivot'', ''pivot table'', ''pivot tables'', ''power query'', ''powerpivot'', ''power pivot'',
      ''charts'', ''charting'', ''dashboards'', ''macros'', ''vba'', ''solver'', ''goal seek'',
      ''dynamic arrays'', ''filter'', ''unique'', ''sort'', ''sumifs'', ''countifs'', ''iferror'',
      ''data cleaning'', ''data validation'', ''conditional formatting'', ''what-if analysis'']"

text \<open>The tag one detected synonym \<open>k\<close> adds to the set (the \<^verbatim>\<open>if/elif/else\<close> of the loop).\<close>

definition detected_tag :: "string \<Rightarrow> string" where
  "detected_tag k =
     (if k \<in> set [''vlookup'', ''xlookup'', ''index match'', ''index-match''] then ''lookup''
      else if k \<in> set [''pivot'', ''pivot table'', ''pivot tables''] then ''pivot tables''
      else if k \<in> set [''powerpivot'', ''power pivot''] then ''power query''
      else strip (normalize k))"

text \<open>The set \<^verbatim>\<open>detected\<close> is the list of the tags added, and \<^verbatim>\<open>sorted(detected)\<close> sorts it
  without duplicates.\<close>

definition extract_resume_skills :: "string \<Rightarrow> string list" where
  "extract_resume_skills resume_text =
     (let text = normalize resume_text;
          detected = map detected_tag (filter (\<lambda>k. substring_in (normalize k) text) known) @
            (if substring_in ''excel'' text \<or> substring_in ''microsoft excel'' text
             then [''excel''] else [])
      in sort (remdups detected))"

record overlap_result =
  overlap :: nat
  score_10 :: rat
  matched :: "string list"

text \<open>\<^verbatim>\<open>list(set(a).intersection(set(b)))\<close> lists the common elements once each, in an order
  Python does not fix; the model lists them in the order of the required list.\<close>

definition top_required_overlap :: "string list \<Rightarrow> string list \<Rightarrow> int \<Rightarrow> overlap_result" where
  "top_required_overlap resume_skills required top_n =
     (let required_lower = map (\<lambda>x. strip (normalize x)) required;
          resume_lower = map (\<lambda>x. strip (normalize x)) resume_skills;
          matched = remdups (filter (\<lambda>x. x \<in> set resume_lower) required_lower);
          overlap = length matched;
          denom = min top_n (int (length required_lower));
          score_10 = (of_nat overlap / of_int (max 1 denom)) * 10
      in \<lparr>overlap = overlap, score_10 = round2 score_10, matched = matched\<rparr>)"

subsection \<open>Data model\<close>

text \<open>A dictionary read with \<^verbatim>\<open>.get(key, default)\<close> is a record whose field is optional;
  \<open>get_or d\<close> is the read with default \<open>d\<close>. Values the language model supplies are taken
  to have the types of the schema the prompt asks for.\<close>

definition get_or :: "'a \<Rightarrow> 'a option \<Rightarrow> 'a" where
  "get_or d v = (case v of None \<Rightarrow> d | Some x \<Rightarrow> x)"

record rubric =
  criteria :: "string list option"
  weights :: "rat list option"
  exemplar :: "string option"

record question =
  q_id :: nat
  q_type :: string
  q_text :: string
  q_skill :: string
  q_options :: "string list option"
  q_correct_answer :: "string option"
  q_rubric :: "rubric option"

record answer =
  a_question_id :: nat
  a_type :: string
  a_skill :: string
  a_answer :: string
  a_is_correct :: bool
  a_score :: rat
  a_feedback :: string
  a_confidence :: rat
  a_cheating_delta :: rat
  a_timed_out :: bool

record session =
  candidate_name :: string
  role :: string
  level :: string
  resume_text :: string
  resume_skills :: "string list"
  required_overlap :: overlap_result
  questions :: "question list"
  current_question_index :: int
  answers :: "answer list"
  blocked :: bool
  greeting :: "string option"
  cheating_signals :: "rat list"
  soft_skill_observations :: "string list"
  question_start_time :: "rat option"

text \<open>\<^verbatim>\<open>interview_sessions\<close>.\<close>

type_synonym store = "string \<rightharpoonup> session"

datatype error =
    HTTPException nat string
  | IndexError
  | ValueError

subsection \<open>LLM helpers: the replies of the collaborator\<close>

text \<open>One item of the list the model returns under \<^verbatim>\<open>"questions"\<close>: an object whose keys
  may be missing, or (\<open>Malformed\<close>) a value on which the loop body raises.\<close>

record raw_question =
  r_text :: "string option"
  r_type :: "string option"
  r_skill :: "string option"
  r_options :: "string list option"
  r_correct_answer :: "string option"
  r_rubric :: "rubric option"

datatype raw_item = Malformed | Item raw_question

text \<open>\<^verbatim>\<open>call_llm_json\<close> for question generation: it raises (no API key, transport error,
  unparseable content), or returns an object that has a list under \<^verbatim>\<open>"questions"\<close> or has
  no such key.\<close>

datatype questions_reply = Questions_Raises | Questions_Obj "raw_item list option"

definition generation_default_rubric :: rubric where
  "generation_default_rubric =
     \<lparr>criteria = Some [''correctness'', ''clarity'', ''best practices''],
      weights = Some [5 / 10, 3 / 10, 2 / 10], exemplar = Some ''''\<rparr>"

text \<open>The dictionary \<^verbatim>\<open>item\<close> the loop builds from a raw item with non-empty text.\<close>

definition make_item :: "nat \<Rightarrow> string \<Rightarrow> raw_question \<Rightarrow> question" where
  "make_item i text q =
     (let qt = get_or ''open_ended'' (r_type q) in
      if qt = ''multiple_choice'' then
        \<lparr>q_id = i, q_type = qt, q_text = text, q_skill = get_or ''general'' (r_skill q),
         q_options = Some (get_or [] (r_options q)),
         q_correct_answer = Some (strip (get_or '''' (r_correct_answer q))),
         q_rubric = None\<rparr>
      else
        \<lparr>q_id = i, q_type = qt, q_text = text, q_skill = get_or ''general'' (r_skill q),
         q_options = None, q_correct_answer = None,
         q_rubric = Some (get_or generation_default_rubric (r_rubric q))\<rparr>)"

text \<open>The loop \<^verbatim>\<open>for i, q in enumerate(questions, start=1)\<close>; \<open>None\<close> when the body raises.\<close>

fun collect_questions :: "nat \<Rightarrow> raw_item list \<Rightarrow> question list \<Rightarrow> question list option" where
  "collect_questions i [] out = Some out"
| "collect_questions i (Malformed # qs) out = None"
| "collect_questions i (Item q # qs) out =
     (let text = strip (get_or '''' (r_text q)) in
      if text = '''' then collect_questions (Suc i) qs out
      else let out' = out @ [make_item i text q] in
        if length out' \<ge> MAX_QUESTIONS then Some out'
        else collect_questions (Suc i) qs out')"

definition fallback_mcq :: question where
  "fallback_mcq =
     \<lparr>q_id = 1, q_type = ''multiple_choice'',
      q_text = ''What is the main advantage of XLOOKUP over VLOOKUP?'',
      q_skill = ''lookup'',
      q_options = Some [''A) Only vertical lookups'', ''B) Requires sorted data'',
        ''C) Looks left/right and resists column insertions'', ''D) Always approximate''],
      q_correct_answer = Some ''C'', q_rubric = None\<rparr>"

definition fallback_open :: question where
  "fallback_open =
     \<lparr>q_id = 2, q_type = ''open_ended'',
      q_text = ''Describe the steps to build a Pivot Table for total sales by Category and Region.'',
      q_skill = ''pivot tables'', q_options = None, q_correct_answer = None,
      q_rubric = Some \<lparr>criteria = Some [''data_selection'', ''insert_pivot'', ''field_assignment''],
        weights = Some [3 / 10, 3 / 10, 4 / 10], exemplar = Some ''''\<rparr>\<rparr>"

text \<open>The resume, role, level and matched skills only go into the prompt; what comes back
  is the reply.\<close>

definition generate_questions_from_resume ::
  "questions_reply \<Rightarrow> string \<Rightarrow> string \<Rightarrow> string \<Rightarrow> string list \<Rightarrow> question list" where
  "generate_questions_from_resume reply resume_txt role_name level_name matched_skills =
     (let fallback = [fallback_mcq, fallback_open] in
      case reply of
        Questions_Raises \<Rightarrow> fallback
      | Questions_Obj qs \<Rightarrow>
          (case collect_questions 1 (get_or [] qs) [] of
             None \<Rightarrow> fallback
           | Some out \<Rightarrow> if out \<noteq> [] then out else fallback))"

text \<open>A number of the grader's JSON that \<^verbatim>\<open>float()\<close> converts, or a value on which it raises.\<close>

datatype jval = JNum rat | JOther

record grade_obj =
  g_scores :: "rat list option"
  g_total :: "jval option"
  g_comments :: "string option"
  g_confidence :: "jval option"

datatype grade_reply = Grade_Raises | Grade_Obj grade_obj

definition grade_open_answer_rubric ::
  "grade_reply \<Rightarrow> string \<Rightarrow> string \<Rightarrow> rubric \<Rightarrow> grade_obj" where
  "grade_open_answer_rubric reply question_text candidate_answer rubric =
     (let fallback = \<lparr>g_scores = Some (replicate (length (get_or [] (criteria rubric))) 0),
            g_total = Some (JNum 0), g_comments = Some ''Grader unavailable.'',
            g_confidence = Some (JNum (5 / 10))\<rparr> in
      case reply of
        Grade_Raises \<Rightarrow> fallback
      | Grade_Obj obj \<Rightarrow> if g_scores obj \<noteq> None \<and> g_total obj \<noteq> None then obj else fallback)"

definition py_float :: "jval \<Rightarrow> error + rat" where
  "py_float v = (case v of JNum r \<Rightarrow> Inr r | JOther \<Rightarrow> Inl ValueError)"

subsection \<open>Evaluation\<close>

record eval_result =
  required_skill_score_10 :: rat
  soft_skills_score_10 :: rat
  confidence_score_10 :: rat
  cheating_score_0_1 :: rat
  passed :: bool

text \<open>\<^verbatim>\<open>d.setdefault(k, []).append(v)\<close> on a dictionary kept in insertion order.\<close>

fun setdefault_append :: "string \<Rightarrow> rat \<Rightarrow> (string \<times> rat list) list \<Rightarrow> (string \<times> rat list) list" where
  "setdefault_append k v [] = [(k, [v])]"
| "setdefault_append k v ((k', vs) # rest) =
     (if k = k' then (k', vs @ [v]) # rest else (k', vs) # setdefault_append k v rest)"

definition skill_scores_of :: "answer list \<Rightarrow> (string \<times> rat list) list" where
  "skill_scores_of as = foldl (\<lambda>d a. setdefault_append (a_skill a) (a_score a) d) [] as"

definition extended_tags :: "string list" where
  "extended_tags =
     [''lookup'', ''pivot tables'', ''dynamic arrays'', ''power query'', ''vba'', ''solver'',
      ''data cleaning'', ''formulas'', ''functions'', ''charts'']"

text \<open>What one observation adds to \<^verbatim>\<open>soft_points\<close>.\<close>

definition soft_point :: "string \<Rightarrow> rat" where
  "soft_point ob =
     (if substring_in ''Structured'' ob \<or> substring_in ''Concise'' ob then 1
      else if substring_in ''Verbose'' ob \<or> substring_in ''Brief'' ob then 5 / 10
      else 0)"

definition evaluation :: "session \<Rightarrow> eval_result" where
  "evaluation session =
     (let skill_scores = skill_scores_of (answers session);
          required_norm =
            map (\<lambda>(skill, scores). sum_list scores / of_nat (max 1 (length scores)))
              (filter (\<lambda>(skill, scores).
                   skill \<in> set (map normalize INTERVIEWER_REQUIRED_SKILLS) \<or>
                   skill \<in> set extended_tags)
                 skill_scores);
          required_avg = (if required_norm \<noteq> []
            then sum_list required_norm / of_nat (max 1 (length required_norm)) else 0);
          required_v = round2 (required_avg * 10);
          obs = soft_skill_observations session;
          soft_points = sum_list (map soft_point obs);
          soft_v = (if obs \<noteq> []
            then round2 (min 10 ((soft_points / of_nat (max 1 (length obs))) * 10)) else 6);
          confidences = map a_confidence (answers session);
          avg_conf = (if confidences \<noteq> []
            then sum_list confidences / of_nat (max 1 (length confidences)) else 6 / 10);
          confidence_v = round2 (avg_conf * 10);
          ch = cheating_signals session;
          cheating = (if ch \<noteq> [] then min 1 (sum_list ch) else 0);
          passed_v = (required_v \<ge> REQUIRED_SKILL_PASS_MIN \<and>
                      soft_v \<ge> SOFT_SKILL_PASS_MIN \<and>
                      avg_conf \<ge> CONFIDENCE_MIN \<and>
                      cheating \<le> CHEATING_THRESHOLD)
      in \<lparr>required_skill_score_10 = required_v,
          soft_skills_score_10 = soft_v,
          confidence_score_10 = confidence_v,
          cheating_score_0_1 = round2 cheating,
          passed = passed_v\<rparr>)"

text \<open>One line of the per-question feedback.\<close>

definition answer_line :: "answer \<Rightarrow> string" where
  "answer_line a =
     ''- Q'' @ str_nat (a_question_id a) @ '' ['' @ a_skill a @ '']: score='' @
     float_str (round2 (a_score a)) @ (if a_timed_out a then '' (timeout)'' else '''') @
     '' | '' @ a_feedback a"

definition generate_summary :: "session \<Rightarrow> string" where
  "generate_summary session =
     (let total_q = length (questions session);
          correct_like = length (filter (\<lambda>a. a_score a \<ge> 6 / 10) (answers session));
          eval_res = evaluation session;
          lines =
            [''Interview Summary for '' @ candidate_name session,
             '''',
             ''Questions answered: '' @ str_nat (length (answers session)) @ ''/'' @ str_nat total_q,
             ''Approx. correct/strong answers: '' @ str_nat correct_like @ ''/'' @ str_nat total_q,
             '''',
             ''Per-question feedback:''] @
            map answer_line (answers session) @
            ['''',
             ''Aggregate ratings (out of 10 unless noted):'',
             ''- Required skills: '' @ float_str (required_skill_score_10 eval_res),
             ''- Soft skills: '' @ float_str (soft_skills_score_10 eval_res),
             ''- Confidence: '' @ float_str (confidence_score_10 eval_res),
             ''- Cheating indicator (0..1, lower is better): '' @
               float_str (cheating_score_0_1 eval_res),
             '''',
             ''Final decision: '' @ (if passed eval_res then ''PASS'' else ''FAIL''),
             '''',
             (if \<not> passed eval_res then
                ''Recommendation: Focus on interviewer-required areas and provide clearer, structured reasoning on open-ended tasks. Reduce reliance on external references and keep answers concise.''
              else ''Recommendation: Candidate meets requirements; proceed to next stage.'')]
      in join [CHR 0x0A] lines)"

subsection \<open>API: start_interview\<close>

record start_request =
  req_candidate_name :: string
  req_resume_text :: string
  req_role :: string
  req_level :: string

text \<open>What the operation reads from outside: \<^verbatim>\<open>str(uuid.uuid4())\<close>, the model's reply to the
  question prompt, and \<^verbatim>\<open>time.time()\<close>.\<close>

record start_env =
  new_session_id :: string
  llm_questions :: questions_reply
  start_clock :: rat

text \<open>The returned dictionary; a key it does not carry is \<open>None\<close>.\<close>

record start_response =
  sr_session_id :: string
  sr_greeting :: string
  sr_blocked :: "bool option"
  sr_reason :: "string option"
  sr_question :: "question option"
  sr_time_limit_sec :: "nat option"

definition start_interview ::
  "store \<Rightarrow> start_request \<Rightarrow> start_env \<Rightarrow> (error + start_response) \<times> store" where
  "start_interview sessions request env =
     (let session_id = new_session_id env;
          skills = extract_resume_skills (req_resume_text request);
          ov = top_required_overlap skills INTERVIEWER_REQUIRED_SKILLS 10
      in
      if score_10 ov < SKILL_MATCH_THRESHOLD then
        (let reason = ''Insufficient skill overlap for '' @ req_role request @ ''. Matched '' @
               str_nat (overlap ov) @ '' skills; need >= '' @
               str_nat (nat \<lfloor>SKILL_MATCH_THRESHOLD\<rfloor>) @ '' out of 10.'';
             greet = ''Hello '' @ req_candidate_name request @
               '', thanks for sharing the resume. '' @ reason;
             session = \<lparr>candidate_name = req_candidate_name request,
               role = req_role request, level = req_level request,
               resume_text = req_resume_text request, resume_skills = skills,
               required_overlap = ov, questions = [], current_question_index = - 1,
               answers = [], blocked = True, greeting = Some greet,
               cheating_signals = [], soft_skill_observations = [],
               question_start_time = None\<rparr>
         in (Inr \<lparr>sr_session_id = session_id, sr_greeting = greet, sr_blocked = Some True,
                  sr_reason = Some reason, sr_question = None, sr_time_limit_sec = None\<rparr>,
             sessions(session_id \<mapsto> session)))
      else
        (let generated = generate_questions_from_resume (llm_questions env)
               (req_resume_text request) (req_role request) (req_level request) (matched ov);
             nonempty = (if generated = [] then [fallback_mcq] else generated);
             qs = (if nonempty = [] then [fallback_mcq] else nonempty);
             session = \<lparr>candidate_name = req_candidate_name request,
               role = req_role request, level = req_level request,
               resume_text = req_resume_text request, resume_skills = skills,
               required_overlap = ov, questions = qs, current_question_index = 0,
               answers = [], blocked = False, greeting = None,
               cheating_signals = [], soft_skill_observations = [],
               question_start_time = Some (start_clock env)\<rparr>;
             sessions' = sessions(session_id \<mapsto> session);
             greet = ''Hello '' @ req_candidate_name request @
               ''! This is an Excel interview for the '' @ req_role request @ '' role ('' @
               req_level request @ ''). You'' @ [CHR 0x27] @ ''ll answer up to '' @
               str_nat (length qs) @ '' questions tailored to the resume. Each question has a '' @
               str_nat (QUESTION_TIME_LIMIT_SEC div 60) @ '' minute time limit.''
         in case qs of
              [] \<Rightarrow> (Inl IndexError, sessions')
            | first_question # _ \<Rightarrow>
                (Inr \<lparr>sr_session_id = session_id, sr_greeting = greet, sr_blocked = None,
                      sr_reason = None, sr_question = Some first_question,
                      sr_time_limit_sec = Some QUESTION_TIME_LIMIT_SEC\<rparr>,
                 sessions')))"

subsection \<open>API: submit_answer\<close>

record submit_request =
  sub_session_id :: string
  sub_answer :: string

text \<open>What the operation reads from outside: \<^verbatim>\<open>time.time()\<close> at the timer check, the
  grader's reply when an open-ended answer is graded, and \<^verbatim>\<open>time.time()\<close> when the next
  question is presented.\<close>

record submit_env =
  clock_at_check :: rat
  llm_grade :: grade_reply
  clock_at_next :: rat

record submit_response =
  feedback :: string
  next_question :: "question option"
  time_limit_sec :: "nat option"
  summary :: "string option"

text \<open>The local variables the scoring part of \<^verbatim>\<open>submit_answer\<close> leaves behind, and
  the observation it appends to \<^verbatim>\<open>soft_skill_observations\<close> (none on a timeout).\<close>

record graded =
  gr_feedback :: string
  gr_is_correct :: bool
  gr_score :: rat
  gr_confidence :: rat
  gr_cheating :: rat
  gr_observation :: "string option"

text \<open>The three heuristics on the answer text that come before the grading.\<close>

definition text_cheating :: "string \<Rightarrow> rat" where
  "text_cheating answer_text =
     (if length answer_text > 1200 then 2 / 10 else 0) +
     (if substring_in ''http://'' answer_text \<or> substring_in ''https://'' answer_text
      then 2 / 10 else 0) +
     (if count_char (CHR 0x0A) answer_text > 30 then 1 / 10 else 0)"

definition submit_default_rubric :: rubric where
  "submit_default_rubric =
     \<lparr>criteria = Some [''correctness'', ''clarity'', ''best_practices''],
      weights = Some [5 / 10, 3 / 10, 2 / 10], exemplar = Some ''''\<rparr>"

text \<open>The block from \<^verbatim>\<open>feedback = ""\<close> to the end of the \<^verbatim>\<open>if timed_out: ... else: ...\<close>.
  \<^verbatim>\<open>len(answer_text.split("."))\<close> is one more than the number of periods. Both
  \<^verbatim>\<open>float()\<close> conversions come before the first mutation of the session.\<close>

definition grade_submission ::
  "question \<Rightarrow> string \<Rightarrow> bool \<Rightarrow> grade_reply \<Rightarrow> error + graded" where
  "grade_submission q answer_text timed_out reply =
     (if timed_out then
        Inr \<lparr>gr_feedback = ''Skipped due to time limit.'', gr_is_correct = False,
             gr_score = 0, gr_confidence = 5 / 10, gr_cheating = 0, gr_observation = None\<rparr>
      else
        (let cheating_score = text_cheating answer_text in
         if q_type q = ''multiple_choice'' then
           (let correct = upper (strip (get_or '''' (q_correct_answer q)));
                candidate = upper (take 1 answer_text);
                is_correct = (candidate = take 1 correct)
            in Inr \<lparr>gr_feedback = (if is_correct then ''Correct.''
                       else ''Incorrect. Correct answer is '' @ correct @ ''.''),
                     gr_is_correct = is_correct,
                     gr_score = (if is_correct then 1 else 0),
                     gr_confidence = 6 / 10,
                     gr_cheating = cheating_score,
                     gr_observation = Some (if length answer_text < 6
                       then ''Concise on MCQ.'' else ''Verbose on MCQ.'')\<rparr>)
         else
           (let rub = get_or submit_default_rubric (q_rubric q);
                res = grade_open_answer_rubric reply (q_text q) answer_text rub
            in case py_float (get_or (JNum 0) (g_total res)) of
                 Inl e \<Rightarrow> Inl e
               | Inr per_question_score \<Rightarrow>
                   (case py_float (get_or (JNum (6 / 10)) (g_confidence res)) of
                      Inl e \<Rightarrow> Inl e
                    | Inr confidence \<Rightarrow>
                        Inr \<lparr>gr_feedback = get_or '''' (g_comments res),
                             gr_is_correct = (per_question_score \<ge> 6 / 10),
                             gr_score = per_question_score,
                             gr_confidence = confidence,
                             gr_cheating = cheating_score +
                               (if confidence < 4 / 10 \<and> length answer_text > 800
                                then 2 / 10 else 0),
                             gr_observation = Some
                               (if count_char (CHR ''.'') answer_text + 1 \<ge> 3
                                then ''Structured explanation.''
                                else ''Brief explanation.'')\<rparr>))))"

text \<open>The timer: \<^verbatim>\<open>started_at is not None and (time.time() - started_at) > QUESTION_TIME_LIMIT_SEC\<close>.\<close>

definition question_timed_out :: "session \<Rightarrow> submit_env \<Rightarrow> bool" where
  "question_timed_out session env =
     (case question_start_time session of
        None \<Rightarrow> False
      | Some started_at \<Rightarrow> clock_at_check env - started_at > of_nat QUESTION_TIME_LIMIT_SEC)"

text \<open>The dictionary appended to \<^verbatim>\<open>session["answers"]\<close>.\<close>

definition answer_record :: "question \<Rightarrow> string \<Rightarrow> bool \<Rightarrow> graded \<Rightarrow> answer" where
  "answer_record q answer_text timed_out g =
     \<lparr>a_question_id = q_id q, a_type = q_type q, a_skill = q_skill q,
      a_answer = (if timed_out then '''' else answer_text),
      a_is_correct = gr_is_correct g, a_score = gr_score g,
      a_feedback = gr_feedback g, a_confidence = gr_confidence g,
      a_cheating_delta = gr_cheating g, a_timed_out = timed_out\<rparr>"

definition submit_answer ::
  "store \<Rightarrow> submit_request \<Rightarrow> submit_env \<Rightarrow> (error + submit_response) \<times> store" where
  "submit_answer sessions request env =
     (case sessions (sub_session_id request) of
        None \<Rightarrow> (Inl (HTTPException 404 ''Session not found.''), sessions)
      | Some session \<Rightarrow>
          if blocked session then
            (Inr \<lparr>feedback = ''Interview gated due to low skill overlap. Session ended.'',
                  next_question = None, time_limit_sec = None,
                  summary = Some (generate_summary session)\<rparr>, sessions)
          else
            (let idx = current_question_index session in
             if idx < 0 \<or> idx \<ge> int (length (questions session)) then
               (Inr \<lparr>feedback = ''Interview already completed.'',
                     next_question = None, time_limit_sec = None,
                     summary = Some (generate_summary session)\<rparr>, sessions)
             else
               (let q = questions session ! nat idx;
                    answer_text = strip (sub_answer request);
                    timed_out = question_timed_out session env
                in case grade_submission q answer_text timed_out (llm_grade env) of
                     Inl e \<Rightarrow> (Inl e, sessions)
                   | Inr g \<Rightarrow>
                       (let observed = session
                              \<lparr>soft_skill_observations := soft_skill_observations session @
                                 (case gr_observation g of None \<Rightarrow> [] | Some ob \<Rightarrow> [ob])\<rparr>;
                            answered = observed
                              \<lparr>answers := answers observed @
                                 [answer_record q answer_text timed_out g]\<rparr>;
                            next_index = idx + 1
                        in if next_index < int (length (questions answered)) then
                             (let advanced = answered
                                    \<lparr>current_question_index := next_index,
                                     cheating_signals := cheating_signals answered @ [gr_cheating g],
                                     question_start_time := Some (clock_at_next env)\<rparr>
                              in (Inr \<lparr>feedback = gr_feedback g,
                                        next_question = Some (questions advanced ! nat next_index),
                                        time_limit_sec = Some QUESTION_TIME_LIMIT_SEC,
                                        summary = None\<rparr>,
                                  sessions(sub_session_id request \<mapsto> advanced)))
                           else
                             (let finished = answered
                                    \<lparr>cheating_signals := cheating_signals answered @ [gr_cheating g],
                                     question_start_time := None\<rparr>
                              in (Inr \<lparr>feedback = gr_feedback g,
                                        next_question = None, time_limit_sec = None,
                                        summary = Some (generate_summary finished)\<rparr>,
                                  sessions(sub_session_id request \<mapsto> finished)))))))"

subsection \<open>Runs of the service\<close>

text \<open>A request the service handles, with what the handler reads from outside.\<close>

datatype event =
    Start start_request start_env
  | Submit submit_request submit_env

definition handle :: "store \<Rightarrow> event \<Rightarrow> store" where
  "handle sessions ev =
     (case ev of
        Start request env \<Rightarrow> snd (start_interview sessions request env)
      | Submit request env \<Rightarrow> snd (submit_answer sessions request env))"

text \<open>The store after the process has handled the requests \<open>evs\<close>, from the empty
  dictionary it starts with.\<close>

definition run :: "event list \<Rightarrow> store" where
  "run evs = foldl handle Map.empty evs"

section \<open>Notions the properties are stated with\<close>

subsection \<open>Quantities of the evaluation, as the specification names them\<close>

text \<open>The mean of the recorded answer confidences, 0.6 when no answer is recorded.\<close>

definition mean_confidence :: "session \<Rightarrow> rat" where
  "mean_confidence s =
     (if answers s = [] then 6 / 10
      else sum_list (map a_confidence (answers s)) / of_nat (length (answers s)))"

text \<open>The sum of the cheating signals, capped at 1.\<close>

definition capped_cheating :: "session \<Rightarrow> rat" where
  "capped_cheating s = min 1 (sum_list (cheating_signals s))"

text \<open>The summary a submit returns, if it returns one.\<close>

definition summary_of :: "error + submit_response \<Rightarrow> string option" where
  "summary_of r = (case r of Inl e \<Rightarrow> None | Inr resp \<Rightarrow> summary resp)"

text \<open>The overlap result a start request computes, and the rejection message built
  from it.\<close>

definition request_overlap :: "start_request \<Rightarrow> overlap_result" where
  "request_overlap request =
     top_required_overlap (extract_resume_skills (req_resume_text request))
       INTERVIEWER_REQUIRED_SKILLS 10"

definition rejection_reason :: "start_request \<Rightarrow> string" where
  "rejection_reason request =
     ''Insufficient skill overlap for '' @ req_role request @ ''. Matched '' @
     str_nat (overlap (request_overlap request)) @ '' skills; need >= 7 out of 10.''"

text \<open>Two characters are the same letter when they are equal or are the lower and the
  upper case of one letter of the alphabets above.\<close>

definition same_letter :: "char \<Rightarrow> char \<Rightarrow> bool" where
  "same_letter c l =
     (c = l \<or> (c, l) \<in> set (zip all_lower_letters all_upper_letters) \<or>
      (l, c) \<in> set (zip all_lower_letters all_upper_letters))"

subsection \<open>The effect of a graded submission, and invariants of a run\<close>

text \<open>The session a submission leaves in the store when the session is active and the
  grading returns \<open>g\<close>.\<close>

definition after_submit :: "session \<Rightarrow> submit_request \<Rightarrow> submit_env \<Rightarrow> graded \<Rightarrow> session" where
  "after_submit session request env g =
     (let idx = current_question_index session;
          more = (idx + 1 < int (length (questions session)))
      in session
        \<lparr>soft_skill_observations := soft_skill_observations session @
           (case gr_observation g of None \<Rightarrow> [] | Some ob \<Rightarrow> [ob]),
         answers := answers session @
           [answer_record (questions session ! nat idx) (strip (sub_answer request))
              (question_timed_out session env) g],
         current_question_index := (if more then idx + 1 else idx),
         cheating_signals := cheating_signals session @ [gr_cheating g],
         question_start_time := (if more then Some (clock_at_next env) else None)\<rparr>)"

definition index_inv :: "session \<Rightarrow> bool" where
  "index_inv s =
     (if blocked s then current_question_index s = - 1 \<and> questions s = []
      else 0 \<le> current_question_index s \<and>
           current_question_index s < int (length (questions s)))"

definition signals_inv :: "session \<Rightarrow> bool" where
  "signals_inv s =
     (cheating_signals s = map a_cheating_delta (answers s) \<and>
      (\<forall>d \<in> set (cheating_signals s). d * 10 \<in> \<int>))"

definition labels_inv :: "session \<Rightarrow> bool" where
  "labels_inv s = (\<forall>q \<in> set (questions s). \<forall>c. q_correct_answer q = Some c \<longrightarrow> strip c = c)"

subsection \<open>Example requests\<close>

text \<open>A resume that names seven of the required skills, and one that names none.\<close>

definition strong_request :: start_request where
  "strong_request =
     \<lparr>req_candidate_name = ''Jane'',
      req_resume_text = ''Excel, VLOOKUP, pivot, charts, macros, VBA, solver'',
      req_role = ''Analyst'', req_level = ''Intermediate''\<rparr>"

definition weak_request :: start_request where
  "weak_request =
     \<lparr>req_candidate_name = ''Joe'', req_resume_text = ''I cook'',
      req_role = ''Analyst'', req_level = ''Intermediate''\<rparr>"

text \<open>A start at which the question generator fails, so that the fallback bank is used.\<close>

definition fallback_env :: start_env where
  "fallback_env = \<lparr>new_session_id = ''s1'', llm_questions = Questions_Raises, start_clock = 0\<rparr>"

text \<open>A submission to session \<open>s1\<close> at time \<open>now\<close>, and a grader reply with a total and a
  confidence.\<close>

definition answer_event :: "string \<Rightarrow> rat \<Rightarrow> grade_reply \<Rightarrow> event" where
  "answer_event txt now reply =
     Submit \<lparr>sub_session_id = ''s1'', sub_answer = txt\<rparr>
            \<lparr>clock_at_check = now, llm_grade = reply, clock_at_next = now\<rparr>"

definition graded_reply :: "rat \<Rightarrow> rat \<Rightarrow> grade_reply" where
  "graded_reply tot conf =
     Grade_Obj \<lparr>g_scores = Some [tot], g_total = Some (JNum tot),
                g_comments = Some ''ok'', g_confidence = Some (JNum conf)\<rparr>"

subsection \<open>Example sessions and runs\<close>

text \<open>A recorded answer with a skill tag, a score, a confidence and a cheating delta, and
  a session holding given answers and observations.\<close>

definition scored_answer :: "string \<Rightarrow> rat \<Rightarrow> rat \<Rightarrow> rat \<Rightarrow> answer" where
  "scored_answer skill sc conf delta =
     \<lparr>a_question_id = 1, a_type = ''open_ended'', a_skill = skill, a_answer = ''text'',
      a_is_correct = (sc \<ge> 6 / 10), a_score = sc, a_feedback = ''ok'',
      a_confidence = conf, a_cheating_delta = delta, a_timed_out = False\<rparr>"

definition session_of_answers :: "answer list \<Rightarrow> string list \<Rightarrow> session" where
  "session_of_answers as obs =
     \<lparr>candidate_name = ''Jane'', role = ''Analyst'', level = ''Intermediate'',
      resume_text = '''', resume_skills = [],
      required_overlap = \<lparr>overlap = 7, score_10 = 7, matched = []\<rparr>,
      questions = [fallback_mcq, fallback_open], current_question_index = 1,
      answers = as, blocked = False, greeting = None,
      cheating_signals = map a_cheating_delta as, soft_skill_observations = obs,
      question_start_time = None\<rparr>"

text \<open>A session that passes every gate, and four that each miss exactly one.\<close>

definition passing_session :: session where
  "passing_session =
     session_of_answers [scored_answer ''lookup'' 1 (6 / 10) 0] [''Concise on MCQ.'']"

definition low_required_session :: session where
  "low_required_session =
     session_of_answers [scored_answer ''lookup'' 0 (6 / 10) 0] [''Concise on MCQ.'']"

definition low_soft_session :: session where
  "low_soft_session =
     session_of_answers [scored_answer ''lookup'' 1 (6 / 10) 0] [''Verbose on MCQ.'']"

definition low_confidence_session :: session where
  "low_confidence_session =
     session_of_answers [scored_answer ''pivot tables'' 1 (1 / 10) 0]
       [''Structured explanation.'']"

definition high_cheating_session :: session where
  "high_cheating_session =
     session_of_answers
       [scored_answer ''pivot tables'' 1 (9 / 10) (4 / 10),
        scored_answer ''lookup'' 1 (9 / 10) (4 / 10)]
       [''Structured explanation.'', ''Structured explanation.'']"

text \<open>A start at which the generator returns one multiple-choice question that has no
  correct answer; a submission ten seconds after the start; a run with one answer that
  holds a link; a run whose second answer arrives after the time limit.\<close>

definition unlabelled_env :: start_env where
  "unlabelled_env =
     \<lparr>new_session_id = ''s1'',
      llm_questions = Questions_Obj (Some
        [Item \<lparr>r_text = Some ''Pick one'', r_type = Some ''multiple_choice'',
               r_skill = Some ''lookup'', r_options = None, r_correct_answer = None,
               r_rubric = None\<rparr>]),
      start_clock = 0\<rparr>"

definition quick_env :: submit_env where
  "quick_env = \<lparr>clock_at_check = 10, llm_grade = Grade_Raises, clock_at_next = 10\<rparr>"

definition url_answer_run :: "event list" where
  "url_answer_run =
     [Start strong_request fallback_env, answer_event ''C http://x'' 10 Grade_Raises]"

definition timeout_run :: "event list" where
  "timeout_run =
     [Start strong_request fallback_env, answer_event ''C'' 10 Grade_Raises,
      answer_event ''late answer'' 200 Grade_Raises]"

text \<open>A multiple-choice question whose correct answer is the sharp s, and a start at which
  the generator returns it.\<close>

definition sharp_s_question :: question where
  "sharp_s_question =
     \<lparr>q_id = 1, q_type = ''multiple_choice'', q_text = ''Pick one'', q_skill = ''lookup'',
      q_options = Some [], q_correct_answer = Some [CHR 0xDF], q_rubric = None\<rparr>"

definition sharp_s_env :: start_env where
  "sharp_s_env =
     \<lparr>new_session_id = ''s1'',
      llm_questions = Questions_Obj (Some
        [Item \<lparr>r_text = Some ''Pick one'', r_type = Some ''multiple_choice'',
               r_skill = Some ''lookup'', r_options = None,
               r_correct_answer = Some [CHR 0xDF], r_rubric = None\<rparr>]),
      start_clock = 0\<rparr>"

section \<open>Properties\<close>

subsection \<open>Submissions and runs\<close>

lemma submit_answer_active:
  assumes "sessions (sub_session_id request) = Some session"
    and "\<not> blocked session"
    and "0 \<le> current_question_index session"
    and "current_question_index session < int (length (questions session))"
    and "grade_submission (questions session ! nat (current_question_index session))
           (strip (sub_answer request)) (question_timed_out session env) (llm_grade env) = Inr g"
  shows "snd (submit_answer sessions request env) =
           sessions(sub_session_id request \<mapsto> after_submit session request env g)"
  using assms by (simp add: submit_answer_def after_submit_def Let_def)

lemma submit_answer_store_cases:
  "snd (submit_answer sessions request env) = sessions \<or>
   (\<exists>session g. sessions (sub_session_id request) = Some session \<and> \<not> blocked session \<and>
      0 \<le> current_question_index session \<and>
      current_question_index session < int (length (questions session)) \<and>
      grade_submission (questions session ! nat (current_question_index session))
        (strip (sub_answer request)) (question_timed_out session env) (llm_grade env) = Inr g \<and>
      snd (submit_answer sessions request env) =
        sessions(sub_session_id request \<mapsto> after_submit session request env g))"
proof (cases "sessions (sub_session_id request)")
  case None
  then show ?thesis by (simp add: submit_answer_def)
next
  case (Some session)
  show ?thesis
  proof (cases "blocked session \<or> current_question_index session < 0 \<or>
                current_question_index session \<ge> int (length (questions session))")
    case True
    then show ?thesis using Some by (auto simp: submit_answer_def Let_def)
  next
    case False
    show ?thesis
    proof (cases "grade_submission (questions session ! nat (current_question_index session))
        (strip (sub_answer request)) (question_timed_out session env) (llm_grade env)")
      case (Inl e)
      then show ?thesis using Some False by (simp add: submit_answer_def Let_def)
    next
      case (Inr g)
      then show ?thesis using Some False submit_answer_active[of sessions request session env g]
        by auto
    qed
  qed
qed

lemma run_snoc: "run (evs @ [ev]) = handle (run evs) ev"
  by (simp add: run_def)

lemma run_Nil: "run [] = Map.empty"
  by (simp add: run_def)

lemma run_invariant:
  assumes start: "\<And>sessions request env sid s.
      snd (start_interview sessions request env) sid = Some s \<Longrightarrow>
      sessions sid = Some s \<or> P s"
    and submit: "\<And>session request env g. P session \<Longrightarrow> \<not> blocked session \<Longrightarrow>
      0 \<le> current_question_index session \<Longrightarrow>
      current_question_index session < int (length (questions session)) \<Longrightarrow>
      grade_submission (questions session ! nat (current_question_index session))
        (strip (sub_answer request)) (question_timed_out session env) (llm_grade env) = Inr g \<Longrightarrow>
      P (after_submit session request env g)"
  shows "run evs sid = Some s \<Longrightarrow> P s"
proof (induction evs arbitrary: sid s rule: rev_induct)
  case Nil
  then show ?case by (simp add: run_Nil)
next
  case (snoc ev evs)
  show ?case
  proof (cases ev)
    case (Start request env)
    with snoc.prems have "snd (start_interview (run evs) request env) sid = Some s"
      by (simp add: run_snoc handle_def)
    from start[OF this] snoc.IH show ?thesis by blast
  next
    case (Submit request env)
    with snoc.prems have st: "snd (submit_answer (run evs) request env) sid = Some s"
      by (simp add: run_snoc handle_def)
    from submit_answer_store_cases[of "run evs" request env] show ?thesis
    proof
      assume "snd (submit_answer (run evs) request env) = run evs"
      with st snoc.IH show ?thesis by simp
    next
      assume "\<exists>session g. run evs (sub_session_id request) = Some session \<and> \<not> blocked session \<and>
        0 \<le> current_question_index session \<and>
        current_question_index session < int (length (questions session)) \<and>
        grade_submission (questions session ! nat (current_question_index session))
          (strip (sub_answer request)) (question_timed_out session env) (llm_grade env) = Inr g \<and>
        snd (submit_answer (run evs) request env) =
          (run evs)(sub_session_id request \<mapsto> after_submit session request env g)"
      then obtain session g where
        a: "run evs (sub_session_id request) = Some session" "\<not> blocked session"
           "0 \<le> current_question_index session"
           "current_question_index session < int (length (questions session))"
           "grade_submission (questions session ! nat (current_question_index session))
              (strip (sub_answer request)) (question_timed_out session env) (llm_grade env) = Inr g"
        and b: "snd (submit_answer (run evs) request env) =
           (run evs)(sub_session_id request \<mapsto> after_submit session request env g)"
        by blast
      show ?thesis
      proof (cases "sid = sub_session_id request")
        case True
        with st b have "s = after_submit session request env g" by simp
        with submit[OF snoc.IH[OF a(1)] a(2-5)] show ?thesis by simp
      next
        case False
        with st b snoc.IH show ?thesis by simp
      qed
    qed
  qed
qed

subsection \<open>Stripping, and the labels of generated questions\<close>

lemma strip_prefix_form:
  "dropWhile isspace s = strip s @ rev (takeWhile isspace (rev (dropWhile isspace s)))"
proof -
  let ?a = "dropWhile isspace s"
  have "?a = rev (takeWhile isspace (rev ?a) @ dropWhile isspace (rev ?a))"
    by (simp only: takeWhile_dropWhile_id rev_rev_ident)
  also have "\<dots> = rev (dropWhile isspace (rev ?a)) @ rev (takeWhile isspace (rev ?a))"
    by (simp only: rev_append)
  finally show ?thesis by (simp only: strip_def)
qed

lemma strip_Nil: "strip [] = []"
  by (simp add: strip_def)

lemma strip_no_leading_space: "strip s \<noteq> [] \<Longrightarrow> \<not> isspace (hd (strip s))"
proof -
  assume ne: "strip s \<noteq> []"
  let ?a = "dropWhile isspace s"
  have "?a \<noteq> []"
  proof
    assume "?a = []"
    then have "strip s = rev (dropWhile isspace (rev []))" by (simp only: strip_def)
    then have "strip s = []" by simp
    with ne show False by simp
  qed
  then have "\<not> isspace (hd ?a)" by (rule hd_dropWhile)
  moreover have "hd ?a = hd (strip s)"
    using strip_prefix_form[of s] ne by (metis hd_append2)
  ultimately show ?thesis by simp
qed

lemma strip_idem: "strip (strip s) = strip s"
proof (cases "strip s = []")
  case True
  then show ?thesis by (simp add: strip_Nil)
next
  case False
  then have "\<not> isspace (hd (strip s))" by (rule strip_no_leading_space)
  with False have d: "dropWhile isspace (strip s) = strip s"
    by (cases "strip s") auto
  have r: "rev (strip s) = dropWhile isspace (rev (dropWhile isspace s))"
    by (simp add: strip_def)
  have "strip (strip s) = rev (dropWhile isspace (rev (dropWhile isspace (strip s))))"
    by (rule strip_def)
  also have "\<dots> = rev (dropWhile isspace (rev (strip s)))"
    by (simp only: d)
  also have "\<dots> = rev (dropWhile isspace (dropWhile isspace (rev (dropWhile isspace s))))"
    by (simp only: r)
  also have "\<dots> = rev (dropWhile isspace (rev (dropWhile isspace s)))"
    by (simp only: dropWhile_idem)
  also have "\<dots> = strip s"
    by (simp only: strip_def)
  finally show ?thesis .
qed

lemma make_item_label: "q_correct_answer (make_item i t q) = Some c \<Longrightarrow> strip c = c"
  by (auto simp: make_item_def Let_def strip_idem split: if_splits)

lemma collect_questions_labels:
  "collect_questions i raw acc = Some out \<Longrightarrow>
   \<forall>q \<in> set acc. \<forall>c. q_correct_answer q = Some c \<longrightarrow> strip c = c \<Longrightarrow>
   \<forall>q \<in> set out. \<forall>c. q_correct_answer q = Some c \<longrightarrow> strip c = c"
proof (induction i raw acc rule: collect_questions.induct)
  case (1 i out)
  then show ?case by simp
next
  case (2 i qs out)
  then show ?case by simp
next
  case (3 i q qs acc)
  show ?case
  proof (cases "strip (get_or '''' (r_text q)) = ''''")
    case True
    with 3 show ?thesis by (simp add: Let_def)
  next
    case False
    let ?acc' = "acc @ [make_item i (strip (get_or '''' (r_text q))) q]"
    have acc': "\<forall>q \<in> set ?acc'. \<forall>c. q_correct_answer q = Some c \<longrightarrow> strip c = c"
      using "3.prems"(2) make_item_label by auto
    show ?thesis
    proof (cases "length ?acc' \<ge> MAX_QUESTIONS")
      case True
      with False "3.prems"(1) have "out = ?acc'" by (simp add: Let_def)
      with acc' show ?thesis by simp
    next
      case nf: False
      with False "3.prems"(1) have "collect_questions (Suc i) qs ?acc' = Some out"
        by (simp add: Let_def)
      from "3.IH"(2)[OF refl False refl nf this acc'] show ?thesis .
    qed
  qed
qed

lemma strip_C: "strip ''C'' = ''C''"
  by (simp add: strip_def isspace_def)

lemma generate_questions_labels:
  "\<forall>q \<in> set (generate_questions_from_resume reply a b c d).
     \<forall>l. q_correct_answer q = Some l \<longrightarrow> strip l = l"
proof -
  have fb: "\<forall>q \<in> set [fallback_mcq, fallback_open]. \<forall>l. q_correct_answer q = Some l \<longrightarrow> strip l = l"
    by (simp add: fallback_mcq_def fallback_open_def strip_C)
  show ?thesis
  proof (cases reply)
    case Questions_Raises
    then show ?thesis using fb by (simp add: generate_questions_from_resume_def)
  next
    case (Questions_Obj qs)
    show ?thesis
    proof (cases "collect_questions 1 (get_or [] qs) []")
      case None
      then show ?thesis using fb Questions_Obj by (simp add: generate_questions_from_resume_def)
    next
      case (Some out)
      from collect_questions_labels[OF Some]
      have "\<forall>q \<in> set out. \<forall>c. q_correct_answer q = Some c \<longrightarrow> strip c = c" by simp
      then show ?thesis using fb Questions_Obj Some
        by (simp add: generate_questions_from_resume_def)
    qed
  qed
qed

lemma generate_questions_nonempty:
  "generate_questions_from_resume reply a b c d \<noteq> []"
  by (simp add: generate_questions_from_resume_def Let_def
      split: questions_reply.splits option.splits)

subsection \<open>Starting an interview\<close>

lemma str_nat_7: "str_nat 7 = ''7''"
  by (simp add: digit_char_def str_nat.simps)

lemma start_interview_blocked:
  assumes "score_10 (request_overlap request) < 7"
  shows "\<exists>s. start_interview sessions request env =
           (Inr \<lparr>sr_session_id = new_session_id env,
                 sr_greeting = ''Hello '' @ req_candidate_name request @
                    '', thanks for sharing the resume. '' @ rejection_reason request,
                 sr_blocked = Some True, sr_reason = Some (rejection_reason request),
                 sr_question = None, sr_time_limit_sec = None\<rparr>,
            sessions(new_session_id env \<mapsto> s)) \<and>
         blocked s \<and> questions s = [] \<and> current_question_index s = - 1 \<and>
         question_start_time s = None \<and> answers s = [] \<and> cheating_signals s = [] \<and>
         soft_skill_observations s = [] \<and>
         greeting s = Some (''Hello '' @ req_candidate_name request @
                    '', thanks for sharing the resume. '' @ rejection_reason request)"
  using assms
  by (simp add: start_interview_def request_overlap_def rejection_reason_def Let_def
      SKILL_MATCH_THRESHOLD_def str_nat_7)
     (intro exI conjI, rule refl, simp_all)

lemma start_interview_active:
  assumes "\<not> score_10 (request_overlap request) < 7"
  shows "\<exists>s resp. start_interview sessions request env =
           (Inr resp, sessions(new_session_id env \<mapsto> s)) \<and>
         \<not> blocked s \<and> current_question_index s = 0 \<and>
         questions s = generate_questions_from_resume (llm_questions env)
            (req_resume_text request) (req_role request) (req_level request)
            (matched (request_overlap request)) \<and>
         questions s \<noteq> [] \<and>
         question_start_time s = Some (start_clock env) \<and> answers s = [] \<and>
         cheating_signals s = [] \<and> soft_skill_observations s = [] \<and>
         sr_session_id resp = new_session_id env \<and>
         sr_question resp = Some (hd (questions s)) \<and> sr_blocked resp = None \<and>
         sr_reason resp = None \<and> sr_time_limit_sec resp = Some QUESTION_TIME_LIMIT_SEC"
proof -
  let ?g = "generate_questions_from_resume (llm_questions env)
            (req_resume_text request) (req_role request) (req_level request)
            (matched (request_overlap request))"
  have ne: "?g \<noteq> []" by (rule generate_questions_nonempty)
  then obtain q qs where g: "?g = q # qs" by (cases ?g) auto
  show ?thesis
    using assms g
    by (simp add: start_interview_def request_overlap_def Let_def SKILL_MATCH_THRESHOLD_def)
       (intro exI conjI, rule refl, simp_all)
qed

lemma start_interview_new_session:
  assumes "snd (start_interview sessions request env) sid = Some s"
  shows "sessions sid = Some s \<or>
         (answers s = [] \<and> cheating_signals s = [] \<and>
          (\<forall>q \<in> set (questions s). \<forall>c. q_correct_answer q = Some c \<longrightarrow> strip c = c) \<and>
          (blocked s \<and> questions s = [] \<and> current_question_index s = - 1 \<or>
           \<not> blocked s \<and> current_question_index s = 0 \<and> questions s \<noteq> []))"
proof (cases "sid = new_session_id env")
  case False
  have "\<exists>s'. snd (start_interview sessions request env) = sessions(new_session_id env \<mapsto> s')"
  proof (cases "score_10 (request_overlap request) < 7")
    case True
    from start_interview_blocked[OF True, of sessions env] show ?thesis by auto
  next
    case False
    from start_interview_active[OF False, of sessions env] show ?thesis by auto
  qed
  with False assms show ?thesis by auto
next
  case sid: True
  show ?thesis
  proof (cases "score_10 (request_overlap request) < 7")
    case True
    from start_interview_blocked[OF True, of sessions env] obtain s' where
      st: "snd (start_interview sessions request env) = sessions(new_session_id env \<mapsto> s')"
      and p: "blocked s'" "questions s' = []" "current_question_index s' = - 1"
        "answers s' = []" "cheating_signals s' = []"
      by auto
    from st assms sid have "s = s'" by simp
    with p show ?thesis by simp
  next
    case False
    from start_interview_active[OF False, of sessions env] obtain s' where
      st: "snd (start_interview sessions request env) = sessions(new_session_id env \<mapsto> s')"
      and p: "\<not> blocked s'" "questions s' \<noteq> []" "current_question_index s' = 0"
        "answers s' = []" "cheating_signals s' = []"
      and q: "questions s' = generate_questions_from_resume (llm_questions env)
            (req_resume_text request) (req_role request) (req_level request)
            (matched (request_overlap request))"
      by auto
    from st assms sid have "s = s'" by simp
    moreover have "\<forall>q \<in> set (questions s'). \<forall>c. q_correct_answer q = Some c \<longrightarrow> strip c = c"
      unfolding q by (rule generate_questions_labels)
    ultimately show ?thesis using p by simp
  qed
qed

subsection \<open>Invariants of a run\<close>

lemma run_index_inv: "run evs sid = Some s \<Longrightarrow> index_inv s"
proof (rule run_invariant[where P = index_inv])
  fix sessions request env sid s
  assume "snd (start_interview sessions request env) sid = Some s"
  from start_interview_new_session[OF this]
  show "sessions sid = Some s \<or> index_inv s"
    by (auto simp: index_inv_def)
next
  fix session :: session and request :: submit_request and env :: submit_env and g :: graded
  assume "index_inv session" "\<not> blocked session" "0 \<le> current_question_index session"
    "current_question_index session < int (length (questions session))"
  then show "index_inv (after_submit session request env g)"
    by (simp add: index_inv_def after_submit_def Let_def)
qed

lemma run_labels_inv: "run evs sid = Some s \<Longrightarrow> labels_inv s"
proof (rule run_invariant[where P = labels_inv])
  fix sessions request env sid s
  assume "snd (start_interview sessions request env) sid = Some s"
  from start_interview_new_session[OF this]
  show "sessions sid = Some s \<or> labels_inv s"
    by (auto simp: labels_inv_def)
next
  fix session :: session and request :: submit_request and env :: submit_env and g :: graded
  assume "labels_inv session"
  then show "labels_inv (after_submit session request env g)"
    by (simp add: labels_inv_def after_submit_def Let_def)
qed

lemma text_cheating_tenths: "text_cheating t * 10 \<in> \<int>"
  by (simp add: text_cheating_def distrib_right)

lemma grade_submission_tenths:
  assumes "grade_submission q t timed_out reply = Inr g"
  shows "gr_cheating g * 10 \<in> \<int>"
proof (cases timed_out)
  case True
  with assms show ?thesis by (auto simp: grade_submission_def)
next
  case False
  note nt = this
  have two: "(text_cheating t + 2 / 10) * 10 \<in> \<int>"
    using text_cheating_tenths[of t] by (simp add: distrib_right)
  show ?thesis
  proof (cases "q_type q = ''multiple_choice''")
    case True
    with assms nt show ?thesis
      using text_cheating_tenths[of t] by (auto simp: grade_submission_def Let_def)
  next
    case False
    with assms nt show ?thesis
      using text_cheating_tenths[of t] two
      by (auto simp: grade_submission_def Let_def split: sum.splits if_splits)
  qed
qed

lemma run_signals_inv: "run evs sid = Some s \<Longrightarrow> signals_inv s"
proof (rule run_invariant[where P = signals_inv])
  fix sessions request env sid s
  assume "snd (start_interview sessions request env) sid = Some s"
  from start_interview_new_session[OF this]
  show "sessions sid = Some s \<or> signals_inv s"
    by (auto simp: signals_inv_def)
next
  fix session :: session and request :: submit_request and env :: submit_env and g :: graded
  assume inv: "signals_inv session"
    and gr: "grade_submission (questions session ! nat (current_question_index session))
        (strip (sub_answer request)) (question_timed_out session env) (llm_grade env) = Inr g"
  from grade_submission_tenths[OF gr] inv
  show "signals_inv (after_submit session request env g)"
    by (simp add: signals_inv_def after_submit_def Let_def answer_record_def)
qed

subsection \<open>Evaluation and terminal submissions\<close>

lemma skill_scores_of_Nil: "skill_scores_of [] = []"
  by (simp add: skill_scores_of_def)

lemma evaluation_no_answers:
  "answers s = [] \<Longrightarrow> required_skill_score_10 (evaluation s) = 0"
  by (simp add: evaluation_def Let_def skill_scores_of_Nil round2_def round_half_even_def)

lemma evaluation_passed_unfold:
  "passed (evaluation s) \<longleftrightarrow>
     required_skill_score_10 (evaluation s) \<ge> REQUIRED_SKILL_PASS_MIN \<and>
     soft_skills_score_10 (evaluation s) \<ge> SOFT_SKILL_PASS_MIN \<and>
     mean_confidence s \<ge> CONFIDENCE_MIN \<and>
     capped_cheating s \<le> CHEATING_THRESHOLD"
proof -
  have m: "(if map a_confidence (answers s) \<noteq> []
            then sum_list (map a_confidence (answers s)) /
                 of_nat (max 1 (length (map a_confidence (answers s))))
            else 6 / 10) = mean_confidence s"
    by (cases "answers s") (simp_all add: mean_confidence_def)
  have c: "(if cheating_signals s \<noteq> [] then min 1 (sum_list (cheating_signals s)) else 0)
             = capped_cheating s"
    by (simp add: capped_cheating_def)
  show ?thesis
    unfolding evaluation_def Let_def m c by simp
qed

text \<open>
  Claim C1. For every session the pass decision of the evaluation is true exactly when the
  four gates hold together: required-skill score at least 6.5, soft-skill score at least
  5.5, mean answer confidence at least 0.4, cheating score at most 0.75; and a session that
  misses any one gate is not passed, whatever the other three are.
\<close>
theorem evaluation_passed_iff_four_gates:
  "(passed (evaluation s) \<longleftrightarrow>
      required_skill_score_10 (evaluation s) \<ge> 65 / 10 \<and>
      soft_skills_score_10 (evaluation s) \<ge> 55 / 10 \<and>
      mean_confidence s \<ge> 4 / 10 \<and>
      capped_cheating s \<le> 75 / 100) \<and>
   (required_skill_score_10 (evaluation s) < 65 / 10 \<longrightarrow> \<not> passed (evaluation s)) \<and>
   (soft_skills_score_10 (evaluation s) < 55 / 10 \<longrightarrow> \<not> passed (evaluation s)) \<and>
   (mean_confidence s < 4 / 10 \<longrightarrow> \<not> passed (evaluation s)) \<and>
   (capped_cheating s > 75 / 100 \<longrightarrow> \<not> passed (evaluation s))"
  using evaluation_passed_unfold[of s]
  unfolding REQUIRED_SKILL_PASS_MIN_def SOFT_SKILL_PASS_MIN_def CONFIDENCE_MIN_def
    CHEATING_THRESHOLD_def
  by auto

text \<open>
  Claim C2. For a session that is blocked, or whose current question index equals the
  number of questions, a submit leaves the store (so the answers, the cheating signals,
  the observations and the index of the session) unchanged and returns the summary of
  that unchanged session; a second submit returns the same summary.
\<close>
theorem submit_terminal_no_mutation:
  assumes "sessions (sub_session_id request) = Some session"
    and "blocked session \<or> current_question_index session = int (length (questions session))"
    and "sub_session_id request' = sub_session_id request"
  shows "snd (submit_answer sessions request env) = sessions \<and>
         summary_of (fst (submit_answer sessions request env)) = Some (generate_summary session) \<and>
         snd (submit_answer (snd (submit_answer sessions request env)) request' env') = sessions \<and>
         summary_of (fst (submit_answer (snd (submit_answer sessions request env)) request' env'))
           = summary_of (fst (submit_answer sessions request env))"
proof -
  have one: "\<And>rq ev. sub_session_id rq = sub_session_id request \<Longrightarrow>
      snd (submit_answer sessions rq ev) = sessions \<and>
      summary_of (fst (submit_answer sessions rq ev)) = Some (generate_summary session)"
    using assms(1,2) by (auto simp: submit_answer_def summary_of_def Let_def)
  show ?thesis
    using one[of request env] one[OF assms(3), of env'] by simp
qed

subsection \<open>The state machine, the cheating score and multiple-choice grading\<close>

lemma index_inv_bounds:
  "index_inv s \<Longrightarrow>
     ((current_question_index s = - 1 \<and> blocked s) \<or>
      (0 \<le> current_question_index s \<and>
       current_question_index s < int (length (questions s)) \<and> \<not> blocked s) \<or>
      current_question_index s = int (length (questions s))) \<and>
     current_question_index s \<le> int (length (questions s)) \<and>
     (questions s = [] \<longrightarrow> blocked s)"
  by (cases "blocked s") (auto simp: index_inv_def)

text \<open>
  Claim C3. In every session of a store reached by start and submit requests, the current
  question index is \<open>-1\<close> (and the session is blocked), or lies in \<open>[0, len(questions))\<close>,
  or equals \<open>len(questions)\<close>; it never exceeds the number of questions, and the question
  list is empty only when the session is blocked.
\<close>
theorem index_within_bounds:
  assumes "run evs sid = Some s"
  shows "((current_question_index s = - 1 \<and> blocked s) \<or>
          (0 \<le> current_question_index s \<and>
           current_question_index s < int (length (questions s)) \<and> \<not> blocked s) \<or>
          current_question_index s = int (length (questions s))) \<and>
         current_question_index s \<le> int (length (questions s)) \<and>
         (questions s = [] \<longrightarrow> blocked s)"
  using run_index_inv[OF assms] by (rule index_inv_bounds)

lemma round_half_even_of_int: "round_half_even (of_int k) = k"
  by (simp add: round_half_even_def)

lemma round2_hundredths:
  assumes "x * 100 \<in> \<int>"
  shows "round2 x = x"
proof -
  from assms obtain k :: int where k: "x * 100 = of_int k" by (auto elim: Ints_cases)
  then have "round2 x = of_int k / 100"
    by (simp add: round2_def round_half_even_of_int)
  also have "\<dots> = x" using k by simp
  finally show ?thesis .
qed

lemma sum_list_tenths:
  fixes ds :: "rat list"
  shows "\<forall>d \<in> set ds. d * 10 \<in> \<int> \<Longrightarrow> sum_list ds * 10 \<in> \<int>"
  by (induction ds) (simp_all add: distrib_right)

lemma capped_sum_hundredths:
  fixes ds :: "rat list"
  assumes "\<forall>d \<in> set ds. d * 10 \<in> \<int>"
  shows "min 1 (sum_list ds) * 100 \<in> \<int>"
proof (cases "1 \<le> sum_list ds")
  case True
  then show ?thesis by (simp add: min_def)
next
  case False
  have "sum_list ds * 10 * 10 \<in> \<int>"
    by (rule Ints_mult[OF sum_list_tenths[OF assms]]) simp
  moreover have "sum_list ds * 100 = sum_list ds * 10 * 10" by simp
  ultimately have "sum_list ds * 100 \<in> \<int>" by (simp only:)
  then show ?thesis using False by (simp add: min_def)
qed

lemma evaluation_cheating:
  "cheating_score_0_1 (evaluation s) = round2 (min 1 (sum_list (cheating_signals s)))"
  by (cases "cheating_signals s") (simp_all add: evaluation_def Let_def)

text \<open>
  Claim C8. In every session of a store reached by start and submit requests, the cheating
  score of the evaluation is the sum of the cheating deltas of the recorded answers, capped
  at 1, and it is 0 when no answer is recorded.
\<close>
theorem cheating_score_is_capped_sum:
  assumes "run evs sid = Some s"
  shows "cheating_score_0_1 (evaluation s) =
           min 1 (sum_list (map a_cheating_delta (answers s))) \<and>
         (answers s = [] \<longrightarrow> cheating_score_0_1 (evaluation s) = 0)"
proof -
  from run_signals_inv[OF assms]
  have eq: "cheating_signals s = map a_cheating_delta (answers s)"
    and tenths: "\<forall>d \<in> set (cheating_signals s). d * 10 \<in> \<int>"
    by (simp_all add: signals_inv_def)
  have "cheating_score_0_1 (evaluation s) = min 1 (sum_list (cheating_signals s))"
    unfolding evaluation_cheating
    by (rule round2_hundredths) (rule capped_sum_hundredths[OF tenths])
  then have main: "cheating_score_0_1 (evaluation s) =
      min 1 (sum_list (map a_cheating_delta (answers s)))"
    by (simp only: eq)
  then show ?thesis by auto
qed

lemma grade_submission_mcq:
  assumes "q_type q = ''multiple_choice''"
  shows "\<exists>g. grade_submission q t False reply = Inr g \<and>
           gr_is_correct g =
             (upper (take 1 t) = take 1 (upper (strip (get_or '''' (q_correct_answer q))))) \<and>
           gr_score g = (if gr_is_correct g then 1 else 0)"
  using assms by (simp add: grade_submission_def Let_def)

lemma submit_answer_recorded:
  assumes "sessions (sub_session_id request) = Some session"
    and "\<not> blocked session"
    and "0 \<le> current_question_index session"
    and "current_question_index session < int (length (questions session))"
    and "grade_submission (questions session ! nat (current_question_index session))
           (strip (sub_answer request)) (question_timed_out session env) (llm_grade env) = Inr g"
  shows "map_option answers (snd (submit_answer sessions request env) (sub_session_id request)) =
           Some (answers session @
             [answer_record (questions session ! nat (current_question_index session))
                (strip (sub_answer request)) (question_timed_out session env) g])"
  using submit_answer_active[of sessions request session env g] assms
  by (simp add: after_submit_def Let_def)

subsection \<open>Upper case, one character at a time\<close>

lemma letters_distinct:
  "distinct all_lower_letters" "distinct all_upper_letters"
  by (simp_all add: all_lower_letters_def all_upper_letters_def lower_letters_def
      upper_letters_def latin1_lower_letters_def latin1_upper_letters_def)

lemma letters_length: "length all_lower_letters = length all_upper_letters"
  by (simp add: all_lower_letters_def all_upper_letters_def lower_letters_def
      upper_letters_def latin1_lower_letters_def latin1_upper_letters_def)

lemma letters_disjoint: "c \<in> set all_upper_letters \<Longrightarrow> c \<notin> set all_lower_letters"
  by (auto simp: all_lower_letters_def all_upper_letters_def lower_letters_def
      upper_letters_def latin1_lower_letters_def latin1_upper_letters_def)

lemma zip_right_unique:
  assumes "distinct ys" and "(a, y) \<in> set (zip xs ys)" and "(b, y) \<in> set (zip xs ys)"
  shows "a = b"
proof -
  from assms(2) obtain i where i: "i < length xs" "i < length ys" "xs ! i = a" "ys ! i = y"
    by (auto simp: in_set_zip)
  from assms(3) obtain j where j: "j < length xs" "j < length ys" "xs ! j = b" "ys ! j = y"
    by (auto simp: in_set_zip)
  have "i = j" using nth_eq_iff_index_eq[OF assms(1), of i j] i j by simp
  with i(3) j(3) show ?thesis by simp
qed

lemma upper_table_Some:
  "map_of (zip all_lower_letters all_upper_letters) c = Some d \<longleftrightarrow>
     (c, d) \<in> set (zip all_lower_letters all_upper_letters)"
proof -
  have "distinct (map fst (zip all_lower_letters all_upper_letters))"
    using letters_distinct(1) letters_length by simp
  then show ?thesis by simp
qed

lemma upper_table_None:
  "map_of (zip all_lower_letters all_upper_letters) c = None \<longleftrightarrow> c \<notin> set all_lower_letters"
proof -
  have "map fst (zip all_lower_letters all_upper_letters) = all_lower_letters"
    using letters_length by simp
  then have "fst ` set (zip all_lower_letters all_upper_letters) = set all_lower_letters"
    by (metis set_map)
  then show ?thesis by (simp add: map_of_eq_None_iff)
qed

lemma upper_char_nonempty: "upper_char c \<noteq> []"
  by (simp add: upper_char_def split: option.splits)

lemma upper_Nil_iff: "upper s = [] \<longleftrightarrow> s = []"
  by (cases s) (simp_all add: upper_def upper_char_nonempty)

lemma upper_char_length: "c \<noteq> CHR 0xDF \<Longrightarrow> length (upper_char c) = 1"
  by (simp add: upper_char_def split: option.splits)

lemma upper_char_sharp_s: "upper_char (CHR 0xDF) = ''SS''"
  by (simp add: upper_char_def)

text \<open>Apart from the sharp s, two characters have the same upper case exactly when they
  are the same letter.\<close>

lemma upper_char_eq_iff:
  assumes "c \<noteq> CHR 0xDF" and "l \<noteq> CHR 0xDF"
  shows "upper_char c = upper_char l \<longleftrightarrow> same_letter c l"
proof (cases "map_of (zip all_lower_letters all_upper_letters) c")
  case cn: None
  show ?thesis
  proof (cases "map_of (zip all_lower_letters all_upper_letters) l")
    case None
    have "(c, l) \<notin> set (zip all_lower_letters all_upper_letters)"
      using cn upper_table_None[of c] by (auto dest: set_zip_leftD)
    moreover have "(l, c) \<notin> set (zip all_lower_letters all_upper_letters)"
      using None upper_table_None[of l] by (auto dest: set_zip_leftD)
    ultimately show ?thesis
      using assms cn None by (simp add: upper_char_def same_letter_def)
  next
    case (Some d)
    then have ld: "(l, d) \<in> set (zip all_lower_letters all_upper_letters)"
      by (simp add: upper_table_Some)
    then have "l \<in> set all_lower_letters" by (rule set_zip_leftD)
    then have "l \<notin> set all_upper_letters" using letters_disjoint by blast
    then have ncl: "(c, l) \<notin> set (zip all_lower_letters all_upper_letters)"
      by (auto dest: set_zip_rightD)
    have cl: "c \<notin> set all_lower_letters" using cn by (simp add: upper_table_None)
    have "c \<noteq> l" using cl \<open>l \<in> set all_lower_letters\<close> by auto
    moreover have "(l, c) \<in> set (zip all_lower_letters all_upper_letters) \<longleftrightarrow> d = c"
      using ld upper_table_Some[of l c] Some by auto
    ultimately show ?thesis
      using assms cn Some ncl by (auto simp: upper_char_def same_letter_def)
  qed
next
  case cs: (Some d)
  then have cd: "(c, d) \<in> set (zip all_lower_letters all_upper_letters)"
    by (simp add: upper_table_Some)
  then have cL: "c \<in> set all_lower_letters" by (rule set_zip_leftD)
  then have "c \<notin> set all_upper_letters" using letters_disjoint by blast
  then have nlc: "(l, c) \<notin> set (zip all_lower_letters all_upper_letters)"
    by (auto dest: set_zip_rightD)
  show ?thesis
  proof (cases "map_of (zip all_lower_letters all_upper_letters) l")
    case None
    then have "l \<notin> set all_lower_letters" by (simp add: upper_table_None)
    with cL have "c \<noteq> l" by auto
    moreover have "(c, l) \<in> set (zip all_lower_letters all_upper_letters) \<longleftrightarrow> d = l"
      using cd upper_table_Some[of c l] cs by auto
    ultimately show ?thesis
      using assms cs None nlc by (auto simp: upper_char_def same_letter_def)
  next
    case (Some e)
    then have le: "(l, e) \<in> set (zip all_lower_letters all_upper_letters)"
      by (simp add: upper_table_Some)
    then have "l \<in> set all_lower_letters" by (rule set_zip_leftD)
    then have "l \<notin> set all_upper_letters" using letters_disjoint by blast
    then have ncl: "(c, l) \<notin> set (zip all_lower_letters all_upper_letters)"
      by (auto dest: set_zip_rightD)
    have "d = e \<longleftrightarrow> c = l"
    proof
      assume "d = e"
      with cd le show "c = l"
        using zip_right_unique[OF letters_distinct(2), of c d all_lower_letters l] by simp
    next
      assume "c = l"
      with cs Some show "d = e" by simp
    qed
    then show ?thesis
      using assms cs Some ncl nlc by (auto simp: upper_char_def same_letter_def)
  qed
qed

text \<open>The comparison of the grader, by the first characters of the answer text and of
  the label: with no answer text the label must be empty; an answer that begins with the
  sharp s is never correct; otherwise, unless the label begins with the sharp s, the two
  first characters must be the same letter.\<close>

lemma first_character_comparison:
  "upper (take 1 []) = take 1 (upper label) \<longleftrightarrow> label = []"
  "upper (take 1 (CHR 0xDF # cs)) \<noteq> take 1 (upper label)"
  "c \<noteq> CHR 0xDF \<Longrightarrow> upper (take 1 (c # cs)) \<noteq> take 1 (upper [])"
  "c \<noteq> CHR 0xDF \<Longrightarrow> l \<noteq> CHR 0xDF \<Longrightarrow>
     upper (take 1 (c # cs)) = take 1 (upper (l # ls)) \<longleftrightarrow> same_letter c l"
proof -
  show "upper (take 1 []) = take 1 (upper label) \<longleftrightarrow> label = []"
    using upper_Nil_iff[of label] by (cases "upper label") (auto simp: upper_def)
  have "length (upper (take 1 (CHR 0xDF # cs))) = 2"
    by (simp add: upper_def upper_char_sharp_s)
  moreover have "length (take 1 (upper label)) \<le> 1" by simp
  ultimately show "upper (take 1 (CHR 0xDF # cs)) \<noteq> take 1 (upper label)"
    by (metis one_le_numeral numeral_le_one_iff semiring_norm(69))
  show "c \<noteq> CHR 0xDF \<Longrightarrow> upper (take 1 (c # cs)) \<noteq> take 1 (upper [])"
    by (simp add: upper_def upper_char_nonempty)
  assume c: "c \<noteq> CHR 0xDF" and l: "l \<noteq> CHR 0xDF"
  from upper_char_length[OF l] obtain d where d: "upper_char l = [d]"
    by (cases "upper_char l") auto
  have "upper (take 1 (c # cs)) = upper_char c" by (simp add: upper_def)
  moreover have "take 1 (upper (l # ls)) = upper_char l" by (simp add: upper_def d)
  ultimately show "upper (take 1 (c # cs)) = take 1 (upper (l # ls)) \<longleftrightarrow> same_letter c l"
    using upper_char_eq_iff[OF c l] by simp
qed

text \<open>What the grading of a multiple-choice answer records, for an active session and a
  submit that is not timed out: the answer is correct exactly when the upper case of the
  first character of the stripped answer text is the first character of the upper-cased
  stripped label, and the score is 1 or 0 accordingly. Where neither string begins with
  the sharp s this is the comparison of the two first characters without regard to case.\<close>

lemma mcq_grading_recorded:
  assumes "sessions (sub_session_id request) = Some session"
    and "\<not> blocked session"
    and "0 \<le> current_question_index session"
    and "current_question_index session < int (length (questions session))"
    and "q_type (questions session ! nat (current_question_index session)) = ''multiple_choice''"
    and "\<not> question_timed_out session env"
  shows "\<exists>a. map_option answers
                (snd (submit_answer sessions request env) (sub_session_id request)) =
              Some (answers session @ [a]) \<and>
             a_answer a = strip (sub_answer request) \<and>
             a_is_correct a =
               (upper (take 1 (strip (sub_answer request))) =
                take 1 (upper (strip (get_or ''''
                  (q_correct_answer (questions session ! nat (current_question_index session))))))) \<and>
             a_score a = (if a_is_correct a then 1 else 0)"
proof -
  let ?q = "questions session ! nat (current_question_index session)"
  from grade_submission_mcq[OF assms(5), of "strip (sub_answer request)" "llm_grade env"]
  obtain g where g: "grade_submission ?q (strip (sub_answer request)) False (llm_grade env) = Inr g"
    and c: "gr_is_correct g =
             (upper (take 1 (strip (sub_answer request))) =
              take 1 (upper (strip (get_or '''' (q_correct_answer ?q)))))"
    and sc: "gr_score g = (if gr_is_correct g then 1 else 0)"
    by blast
  from g assms(6) have g': "grade_submission ?q (strip (sub_answer request))
      (question_timed_out session env) (llm_grade env) = Inr g" by simp
  let ?a = "answer_record ?q (strip (sub_answer request)) (question_timed_out session env) g"
  have rec: "map_option answers
      (snd (submit_answer sessions request env) (sub_session_id request)) =
      Some (answers session @ [?a])"
    by (rule submit_answer_recorded[of sessions request session env g, OF assms(1-4) g'])
  show ?thesis
  proof (rule exI[of _ ?a], intro conjI)
    show "map_option answers
      (snd (submit_answer sessions request env) (sub_session_id request)) =
      Some (answers session @ [?a])" by (rule rec)
    show "a_answer ?a = strip (sub_answer request)"
      using assms(6) by (simp add: answer_record_def)
    show "a_is_correct ?a =
      (upper (take 1 (strip (sub_answer request))) =
       take 1 (upper (strip (get_or '''' (q_correct_answer ?q)))))"
      using c by (simp add: answer_record_def)
    show "a_score ?a = (if a_is_correct ?a then 1 else 0)"
      using sc by (simp add: answer_record_def)
  qed
qed

text \<open>
  Claim C10. In a store reached by start and submit requests, a submit that is not timed
  out, on an active session whose current question is multiple choice, with an answer that
  strips to the empty string, is recorded as correct with score 1 when the stored label is
  empty, and as incorrect with score 0 when the stored label is not empty.
\<close>
theorem empty_answer_on_mcq:
  assumes "run evs (sub_session_id request) = Some session"
    and "\<not> blocked session"
    and "q_type (questions session ! nat (current_question_index session)) = ''multiple_choice''"
    and "\<not> question_timed_out session env"
    and "strip (sub_answer request) = ''''"
  shows "\<exists>a. map_option answers
                (snd (submit_answer (run evs) request env) (sub_session_id request)) =
              Some (answers session @ [a]) \<and>
             (get_or '''' (q_correct_answer (questions session ! nat (current_question_index session)))
                = '''' \<longrightarrow> a_is_correct a \<and> a_score a = 1) \<and>
             (get_or '''' (q_correct_answer (questions session ! nat (current_question_index session)))
                \<noteq> '''' \<longrightarrow> \<not> a_is_correct a \<and> a_score a = 0)"
proof -
  let ?q = "questions session ! nat (current_question_index session)"
  let ?label = "get_or '''' (q_correct_answer ?q)"
  from run_index_inv[OF assms(1)] assms(2)
  have lo: "0 \<le> current_question_index session"
    and hi: "current_question_index session < int (length (questions session))"
    by (simp_all add: index_inv_def)
  then have mem: "?q \<in> set (questions session)" by simp
  have stripped: "strip ?label = ?label"
  proof (cases "q_correct_answer ?q")
    case None
    then show ?thesis by (simp add: get_or_def strip_Nil)
  next
    case (Some c)
    with run_labels_inv[OF assms(1)] mem have "strip c = c"
      by (auto simp: labels_inv_def)
    with Some show ?thesis by (simp add: get_or_def)
  qed
  from grade_submission_mcq[OF assms(3), of "strip (sub_answer request)" "llm_grade env"]
  obtain g where g: "grade_submission ?q (strip (sub_answer request)) False (llm_grade env) = Inr g"
    and c: "gr_is_correct g =
             (upper (take 1 (strip (sub_answer request))) = take 1 (upper (strip ?label)))"
    and sc: "gr_score g = (if gr_is_correct g then 1 else 0)"
    by blast
  from c assms(5) stripped have c': "gr_is_correct g = (?label = '''')"
    using first_character_comparison(1)[of ?label] by simp
  from g assms(4) have g': "grade_submission ?q (strip (sub_answer request))
      (question_timed_out session env) (llm_grade env) = Inr g" by simp
  let ?a = "answer_record ?q (strip (sub_answer request)) (question_timed_out session env) g"
  have rec: "map_option answers
      (snd (submit_answer (run evs) request env) (sub_session_id request)) =
      Some (answers session @ [?a])"
    by (rule submit_answer_recorded[of "run evs" request session env g, OF assms(1,2) lo hi g'])
  show ?thesis
  proof (rule exI[of _ ?a], intro conjI impI)
    show "map_option answers
      (snd (submit_answer (run evs) request env) (sub_session_id request)) =
      Some (answers session @ [?a])" by (rule rec)
  next
    assume "?label = ''''"
    with c' sc show "a_is_correct ?a" and "a_score ?a = 1"
      by (simp_all add: answer_record_def)
  next
    assume "?label \<noteq> ''''"
    with c' sc show "\<not> a_is_correct ?a" and "a_score ?a = 0"
      by (simp_all add: answer_record_def)
  qed
qed

subsection \<open>The skill gate\<close>

text \<open>
  Claim C6. A start request whose overlap score is below 7 creates a blocked session with
  no questions, index \<open>-1\<close>, no start timestamp and the rejection message, and answers
  with \<open>blocked = True\<close> and no question; a start request whose overlap score is at least
  7 creates an active session with index 0, a non-empty question list and a start
  timestamp, and answers with the first question.
\<close>
theorem start_interview_gate:
  "(score_10 (request_overlap request) < 7 \<longrightarrow>
      (\<exists>s. start_interview sessions request env =
               (Inr \<lparr>sr_session_id = new_session_id env,
                     sr_greeting = ''Hello '' @ req_candidate_name request @
                        '', thanks for sharing the resume. '' @ rejection_reason request,
                     sr_blocked = Some True, sr_reason = Some (rejection_reason request),
                     sr_question = None, sr_time_limit_sec = None\<rparr>,
                sessions(new_session_id env \<mapsto> s)) \<and>
             blocked s \<and> questions s = [] \<and> current_question_index s = - 1 \<and>
             question_start_time s = None \<and> answers s = [] \<and> cheating_signals s = [] \<and>
             soft_skill_observations s = [] \<and>
             greeting s = Some (''Hello '' @ req_candidate_name request @
                        '', thanks for sharing the resume. '' @ rejection_reason request))) \<and>
   (7 \<le> score_10 (request_overlap request) \<longrightarrow>
      (\<exists>s resp. start_interview sessions request env =
               (Inr resp, sessions(new_session_id env \<mapsto> s)) \<and>
             \<not> blocked s \<and> current_question_index s = 0 \<and>
             questions s = generate_questions_from_resume (llm_questions env)
                (req_resume_text request) (req_role request) (req_level request)
                (matched (request_overlap request)) \<and>
             questions s \<noteq> [] \<and>
             question_start_time s = Some (start_clock env) \<and> answers s = [] \<and>
             cheating_signals s = [] \<and> soft_skill_observations s = [] \<and>
             sr_session_id resp = new_session_id env \<and>
             sr_question resp = Some (hd (questions s)) \<and> sr_blocked resp = None \<and>
             sr_reason resp = None \<and> sr_time_limit_sec resp = Some QUESTION_TIME_LIMIT_SEC))"
  apply (rule conjI)
   apply (rule impI)
   apply (erule start_interview_blocked)
  apply (rule impI)
  apply (rule start_interview_active)
  apply simp
  done

subsection \<open>The overlap scorer and unknown sessions\<close>

lemma top_required_overlap_fields:
  "overlap (top_required_overlap rs req n) =
     card (set (map (\<lambda>x. strip (normalize x)) req) \<inter> set (map (\<lambda>x. strip (normalize x)) rs))"
  "set (matched (top_required_overlap rs req n)) =
     set (map (\<lambda>x. strip (normalize x)) req) \<inter> set (map (\<lambda>x. strip (normalize x)) rs)"
  "distinct (matched (top_required_overlap rs req n))"
proof -
  let ?A = "map (\<lambda>x. strip (normalize x)) req" and ?B = "map (\<lambda>x. strip (normalize x)) rs"
  have s: "set (remdups (filter (\<lambda>x. x \<in> set ?B) ?A)) = set ?A \<inter> set ?B" by auto
  show "set (matched (top_required_overlap rs req n)) = set ?A \<inter> set ?B"
    using s by (simp add: top_required_overlap_def Let_def)
  show "distinct (matched (top_required_overlap rs req n))"
    by (simp add: top_required_overlap_def Let_def)
  have "length (remdups (filter (\<lambda>x. x \<in> set ?B) ?A)) = card (set ?A \<inter> set ?B)"
    using s distinct_card[of "remdups (filter (\<lambda>x. x \<in> set ?B) ?A)"] by simp
  then show "overlap (top_required_overlap rs req n) = card (set ?A \<inter> set ?B)"
    by (simp add: top_required_overlap_def Let_def)
qed

text \<open>
  Claim C7, as amended. The overlap scorer returns the number of common elements of the two
  normalized lists, the list of them, and the score
  \<open>overlap / max(1, min(top_n, R)) * 10\<close> rounded to two decimals; this is
  \<open>overlap / min(top_n, R) * 10\<close> whenever \<open>min(top_n, R)\<close> is at least 1.
\<close>
theorem top_required_overlap_score:
  fixes rs req :: "string list" and n :: int
  defines "r \<equiv> top_required_overlap rs req n"
  defines "common \<equiv> set (map (\<lambda>x. strip (normalize x)) req) \<inter> set (map (\<lambda>x. strip (normalize x)) rs)"
  shows "overlap r = card common \<and> set (matched r) = common \<and> distinct (matched r) \<and>
         score_10 r = round2 (of_nat (overlap r) / of_int (max 1 (min n (int (length req)))) * 10) \<and>
         (1 \<le> min n (int (length req)) \<longrightarrow>
            score_10 r = round2 (of_nat (overlap r) / of_int (min n (int (length req))) * 10))"
proof -
  have sc: "score_10 r = round2 (of_nat (overlap r) / of_int (max 1 (min n (int (length req)))) * 10)"
    by (simp add: r_def top_required_overlap_def Let_def)
  moreover have "1 \<le> min n (int (length req)) \<Longrightarrow> max 1 (min n (int (length req))) = min n (int (length req))"
    by simp
  ultimately show ?thesis
    unfolding r_def common_def using top_required_overlap_fields[of rs req n] by metis
qed

theorem top_required_overlap_score_witness:
  "score_10 (top_required_overlap [''Excel'', ''lookup'', ''sort''] [''excel'', ''lookup'', ''vba''] 10)
     = round2 (of_nat 2 / of_int (min 10 3) * 10) \<and>
   score_10 (top_required_overlap [''Excel'', ''lookup'', ''sort''] [''excel'', ''lookup'', ''vba''] 10) = 667 / 100"
proof -
  have o: "overlap (top_required_overlap [''Excel'', ''lookup'', ''sort''] [''excel'', ''lookup'', ''vba''] 10) = 2"
    by code_simp
  have h: "(1::int) \<le> min 10 (int (length [''excel'', ''lookup'', ''vba'']))" by simp
  have r: "round2 (of_nat 2 / of_int (min 10 3) * 10) = 667 / 100" by code_simp
  show ?thesis
    using top_required_overlap_score[of "[''Excel'', ''lookup'', ''sort'']" "[''excel'', ''lookup'', ''vba'']" 10] h o r
    by simp
qed

text \<open>
  Claim C7 as stated fails where \<open>min(top_n, R)\<close> is below 1: with \<open>top_n = -1\<close> and one
  matching skill the scorer returns 10, and \<open>overlap / min(top_n, R) * 10\<close> is \<open>-10\<close>.
\<close>
theorem top_required_overlap_counterexample:
  "score_10 (top_required_overlap [''excel''] [''excel''] (- 1)) \<noteq>
   round2 (of_nat (overlap (top_required_overlap [''excel''] [''excel''] (- 1))) /
           of_int (min (- 1) (int (length [''excel'']))) * 10)"
  by code_simp

text \<open>
  Claim C9. A submit whose session identifier is not in the store returns the not-found
  error (HTTP 404) and leaves the store unchanged.
\<close>
theorem submit_unknown_session:
  assumes "sessions (sub_session_id request) = None"
  shows "submit_answer sessions request env =
           (Inl (HTTPException 404 ''Session not found.''), sessions)"
  using assms by (simp add: submit_answer_def)

subsection \<open>The properties on example runs\<close>

lemma strong_request_score: "score_10 (request_overlap strong_request) = 7"
  by code_simp

lemma weak_request_overlap:
  "request_overlap weak_request = \<lparr>overlap = 0, score_10 = 0, matched = []\<rparr>"
  by code_simp

lemma weak_request_score: "score_10 (request_overlap weak_request) = 0"
  by (simp add: weak_request_overlap)

lemma run_single_start: "run [Start rq env] = snd (start_interview Map.empty rq env)"
  by (simp add: run_def handle_def)

lemma run_answer_event:
  assumes "run evs ''s1'' = Some s"
    and "\<not> blocked s"
    and "0 \<le> current_question_index s"
    and "current_question_index s < int (length (questions s))"
    and "grade_submission (questions s ! nat (current_question_index s)) (strip txt)
           (question_timed_out s \<lparr>clock_at_check = now, llm_grade = reply, clock_at_next = now\<rparr>)
           reply = Inr g"
  shows "run (evs @ [answer_event txt now reply]) ''s1'' =
           Some (after_submit s \<lparr>sub_session_id = ''s1'', sub_answer = txt\<rparr>
                   \<lparr>clock_at_check = now, llm_grade = reply, clock_at_next = now\<rparr> g)"
  using submit_answer_active[of "run evs" "\<lparr>sub_session_id = ''s1'', sub_answer = txt\<rparr>" s
      "\<lparr>clock_at_check = now, llm_grade = reply, clock_at_next = now\<rparr>" g] assms
  by (simp add: run_snoc handle_def answer_event_def)

lemma strong_start:
  "\<exists>s. run [Start strong_request fallback_env] = [''s1'' \<mapsto> s] \<and> \<not> blocked s \<and>
       current_question_index s = 0 \<and> questions s = [fallback_mcq, fallback_open] \<and>
       question_start_time s = Some 0 \<and> answers s = [] \<and> cheating_signals s = [] \<and>
       soft_skill_observations s = []"
proof -
  have "\<not> score_10 (request_overlap strong_request) < 7"
    by (simp add: strong_request_score)
  from start_interview_active[OF this, of Map.empty fallback_env]
  obtain s resp where
    st: "start_interview Map.empty strong_request fallback_env =
          (Inr resp, [new_session_id fallback_env \<mapsto> s])"
    and p: "\<not> blocked s" "current_question_index s = 0"
      "question_start_time s = Some (start_clock fallback_env)" "answers s = []"
      "cheating_signals s = []" "soft_skill_observations s = []"
    and q: "questions s = generate_questions_from_resume (llm_questions fallback_env)
        (req_resume_text strong_request) (req_role strong_request) (req_level strong_request)
        (matched (request_overlap strong_request))"
    by blast
  have q': "questions s = [fallback_mcq, fallback_open]"
    unfolding q by (simp add: fallback_env_def generate_questions_from_resume_def)
  have sid: "new_session_id fallback_env = ''s1''" by (simp add: fallback_env_def)
  have "run [Start strong_request fallback_env] = [''s1'' \<mapsto> s]"
    by (simp add: run_single_start st sid)
  with p q' show ?thesis by (auto simp: fallback_env_def)
qed

lemma weak_start:
  "\<exists>s. run [Start weak_request fallback_env] = [''s1'' \<mapsto> s] \<and> blocked s \<and>
       questions s = [] \<and> current_question_index s = - 1 \<and> answers s = []"
proof -
  have "score_10 (request_overlap weak_request) < 7"
    by (simp add: weak_request_score)
  from start_interview_blocked[OF this, of Map.empty fallback_env]
  obtain s where
    st: "snd (start_interview Map.empty weak_request fallback_env) =
          [new_session_id fallback_env \<mapsto> s]"
    and p: "blocked s" "questions s = []" "current_question_index s = - 1" "answers s = []"
    by auto
  have sid: "new_session_id fallback_env = ''s1''" by (simp add: fallback_env_def)
  have "run [Start weak_request fallback_env] = [''s1'' \<mapsto> s]"
    by (simp add: run_single_start st sid)
  with p show ?thesis by auto
qed

lemma strip_examples:
  "strip ''Pick one'' = ''Pick one''" "strip '''' = ''''" "strip ''  '' = ''''"
  "strip ''c) foo'' = ''c) foo''" "strip ''C'' = ''C''"
  by code_simp+

lemma unlabelled_start:
  "\<exists>s q. run [Start strong_request unlabelled_env] = [''s1'' \<mapsto> s] \<and> \<not> blocked s \<and>
       current_question_index s = 0 \<and> questions s = [q] \<and>
       q_type q = ''multiple_choice'' \<and> q_correct_answer q = Some '''' \<and>
       question_start_time s = Some 0 \<and> answers s = []"
proof -
  have "\<not> score_10 (request_overlap strong_request) < 7"
    by (simp add: strong_request_score)
  from start_interview_active[OF this, of Map.empty unlabelled_env]
  obtain s resp where
    st: "start_interview Map.empty strong_request unlabelled_env =
          (Inr resp, [new_session_id unlabelled_env \<mapsto> s])"
    and p: "\<not> blocked s" "current_question_index s = 0"
      "question_start_time s = Some (start_clock unlabelled_env)" "answers s = []"
    and q: "questions s = generate_questions_from_resume (llm_questions unlabelled_env)
        (req_resume_text strong_request) (req_role strong_request) (req_level strong_request)
        (matched (request_overlap strong_request))"
    by blast
  let ?q = "\<lparr>q_id = 1, q_type = ''multiple_choice'', q_text = ''Pick one'',
        q_skill = ''lookup'', q_options = Some [], q_correct_answer = Some '''',
        q_rubric = None\<rparr>"
  have q': "questions s = [?q]"
    unfolding q
    by (simp add: unlabelled_env_def generate_questions_from_resume_def get_or_def
        make_item_def MAX_QUESTIONS_def strip_examples)
  have sid: "new_session_id unlabelled_env = ''s1''" by (simp add: unlabelled_env_def)
  have clock: "start_clock unlabelled_env = 0" by (simp add: unlabelled_env_def)
  have r: "run [Start strong_request unlabelled_env] = [''s1'' \<mapsto> s]"
    by (simp add: run_single_start st sid)
  show ?thesis
  proof (intro exI conjI)
    show "run [Start strong_request unlabelled_env] = [''s1'' \<mapsto> s]" by (rule r)
    show "\<not> blocked s" by (rule p(1))
    show "current_question_index s = 0" by (rule p(2))
    show "questions s = [?q]" by (rule q')
    show "q_type ?q = ''multiple_choice''" by simp
    show "q_correct_answer ?q = Some ''''" by simp
    show "question_start_time s = Some 0" using p(3) clock by simp
    show "answers s = []" by (rule p(4))
  qed
qed

lemma not_timed_out_early:
  "question_start_time s = Some 0 \<Longrightarrow> \<not> question_timed_out s quick_env"
  by (simp add: question_timed_out_def quick_env_def QUESTION_TIME_LIMIT_SEC_def)

theorem empty_answer_on_mcq_witness:
  "(\<exists>a. map_option answers
        (snd (submit_answer (run [Start strong_request unlabelled_env])
           \<lparr>sub_session_id = ''s1'', sub_answer = ''  ''\<rparr> quick_env) ''s1'') = Some [a] \<and>
        a_is_correct a \<and> a_score a = 1) \<and>
   (\<exists>a. map_option answers
        (snd (submit_answer (run [Start strong_request fallback_env])
           \<lparr>sub_session_id = ''s1'', sub_answer = ''  ''\<rparr> quick_env) ''s1'') = Some [a] \<and>
        \<not> a_is_correct a \<and> a_score a = 0)"
proof
  let ?rq = "\<lparr>sub_session_id = ''s1'', sub_answer = ''  ''\<rparr>"
  from unlabelled_start obtain s q where
    r: "run [Start strong_request unlabelled_env] = [''s1'' \<mapsto> s]"
    and p: "\<not> blocked s" "current_question_index s = 0" "questions s = [q]"
      "q_type q = ''multiple_choice''" "q_correct_answer q = Some ''''"
      "question_start_time s = Some 0" "answers s = []"
    by blast
  from empty_answer_on_mcq[of "[Start strong_request unlabelled_env]" ?rq s quick_env]
    r p not_timed_out_early[OF p(6)]
  show "\<exists>a. map_option answers
        (snd (submit_answer (run [Start strong_request unlabelled_env]) ?rq quick_env) ''s1'') =
          Some [a] \<and> a_is_correct a \<and> a_score a = 1"
    by (simp add: strip_examples get_or_def)
next
  let ?rq = "\<lparr>sub_session_id = ''s1'', sub_answer = ''  ''\<rparr>"
  from strong_start obtain s where
    r: "run [Start strong_request fallback_env] = [''s1'' \<mapsto> s]"
    and p: "\<not> blocked s" "current_question_index s = 0"
      "questions s = [fallback_mcq, fallback_open]"
      "question_start_time s = Some 0" "answers s = []"
    by blast
  from empty_answer_on_mcq[of "[Start strong_request fallback_env]" ?rq s quick_env]
    r p not_timed_out_early[OF p(4)]
  show "\<exists>a. map_option answers
        (snd (submit_answer (run [Start strong_request fallback_env]) ?rq quick_env) ''s1'') =
          Some [a] \<and> \<not> a_is_correct a \<and> a_score a = 0"
    by (simp add: strip_examples get_or_def fallback_mcq_def)
qed

lemma first_character_examples:
  "upper (take 1 (strip ''c) foo'')) = take 1 (upper (strip ''C''))"
  "upper (take 1 (strip ''d'')) \<noteq> take 1 (upper (strip ''C''))"
  "strip ''d'' = ''d''"
  by code_simp+

text \<open>On the fallback bank, whose first question has the label C: the answer \<open>c) foo\<close> is
  recorded as correct with score 1, the answer \<open>d\<close> as incorrect with score 0.\<close>

lemma mcq_grading_examples:
  "\<exists>a. map_option answers
        (snd (submit_answer (run [Start strong_request fallback_env])
           \<lparr>sub_session_id = ''s1'', sub_answer = ''c) foo''\<rparr> quick_env) ''s1'') = Some [a] \<and>
        a_answer a = ''c) foo'' \<and> a_is_correct a \<and> a_score a = 1"
  "\<exists>a. map_option answers
        (snd (submit_answer (run [Start strong_request fallback_env])
           \<lparr>sub_session_id = ''s1'', sub_answer = ''d''\<rparr> quick_env) ''s1'') = Some [a] \<and>
        a_answer a = ''d'' \<and> \<not> a_is_correct a \<and> a_score a = 0"
proof -
  from strong_start obtain s where
    r: "run [Start strong_request fallback_env] = [''s1'' \<mapsto> s]"
    and p: "\<not> blocked s" "current_question_index s = 0"
      "questions s = [fallback_mcq, fallback_open]"
      "question_start_time s = Some 0" "answers s = []"
    by blast
  let ?rq = "\<lparr>sub_session_id = ''s1'', sub_answer = ''c) foo''\<rparr>"
  from mcq_grading_recorded[of "run [Start strong_request fallback_env]" ?rq s quick_env]
    r p not_timed_out_early[OF p(4)] first_character_examples
  show "\<exists>a. map_option answers
        (snd (submit_answer (run [Start strong_request fallback_env]) ?rq quick_env) ''s1'') =
          Some [a] \<and> a_answer a = ''c) foo'' \<and> a_is_correct a \<and> a_score a = 1"
    by (auto simp: strip_examples get_or_def fallback_mcq_def)
  let ?rq = "\<lparr>sub_session_id = ''s1'', sub_answer = ''d''\<rparr>"
  from mcq_grading_recorded[of "run [Start strong_request fallback_env]" ?rq s quick_env]
    r p not_timed_out_early[OF p(4)] first_character_examples
  show "\<exists>a. map_option answers
        (snd (submit_answer (run [Start strong_request fallback_env]) ?rq quick_env) ''s1'') =
          Some [a] \<and> a_answer a = ''d'' \<and> \<not> a_is_correct a \<and> a_score a = 0"
    by (auto simp: strip_examples get_or_def fallback_mcq_def)
qed

lemma strip_sharp_s: "strip [CHR 0xDF] = [CHR 0xDF]"
  by code_simp

lemma sharp_s_start:
  "\<exists>s. run [Start strong_request sharp_s_env] = [''s1'' \<mapsto> s] \<and> \<not> blocked s \<and>
       current_question_index s = 0 \<and> questions s = [sharp_s_question] \<and>
       question_start_time s = Some 0 \<and> answers s = []"
proof -
  have "\<not> score_10 (request_overlap strong_request) < 7"
    by (simp add: strong_request_score)
  from start_interview_active[OF this, of Map.empty sharp_s_env]
  obtain s resp where
    st: "start_interview Map.empty strong_request sharp_s_env =
          (Inr resp, [new_session_id sharp_s_env \<mapsto> s])"
    and p: "\<not> blocked s" "current_question_index s = 0"
      "question_start_time s = Some (start_clock sharp_s_env)" "answers s = []"
    and q: "questions s = generate_questions_from_resume (llm_questions sharp_s_env)
        (req_resume_text strong_request) (req_role strong_request) (req_level strong_request)
        (matched (request_overlap strong_request))"
    by blast
  have q': "questions s = [sharp_s_question]"
    unfolding q
    by (simp add: sharp_s_env_def sharp_s_question_def generate_questions_from_resume_def
        get_or_def make_item_def MAX_QUESTIONS_def strip_examples strip_sharp_s)
  have sid: "new_session_id sharp_s_env = ''s1''" by (simp add: sharp_s_env_def)
  have clock: "start_clock sharp_s_env = 0" by (simp add: sharp_s_env_def)
  have r: "run [Start strong_request sharp_s_env] = [''s1'' \<mapsto> s]"
    by (simp add: run_single_start st sid)
  show ?thesis
  proof (intro exI conjI)
    show "run [Start strong_request sharp_s_env] = [''s1'' \<mapsto> s]" by (rule r)
    show "\<not> blocked s" by (rule p(1))
    show "current_question_index s = 0" by (rule p(2))
    show "questions s = [sharp_s_question]" by (rule q')
    show "question_start_time s = Some 0" using p(3) clock by simp
    show "answers s = []" by (rule p(4))
  qed
qed

lemma sharp_s_graded:
  "grade_submission sharp_s_question [CHR 0xDF] False Grade_Raises =
     Inr \<lparr>gr_feedback = ''Incorrect. Correct answer is SS.'', gr_is_correct = False,
          gr_score = 0, gr_confidence = 6 / 10, gr_cheating = 0,
          gr_observation = Some ''Concise on MCQ.''\<rparr>"
  by code_simp

text \<open>
  Claim C5 on the code. The grader upper-cases the answer after taking its first character
  and the label before taking its first character. The upper case of the sharp s is the
  two characters SS, so on a question whose stored label is the sharp s the answer that is
  the sharp s itself, submitted within the time limit, has the candidate SS compared with
  the label character S: it is recorded as incorrect with score 0, although the first
  characters of the answer and of the label are equal.
\<close>
theorem sharp_s_answer_marked_incorrect:
  "map_option (map q_type \<circ> questions) (run [Start strong_request sharp_s_env] ''s1'') =
     Some [''multiple_choice''] \<and>
   map_option (map q_correct_answer \<circ> questions) (run [Start strong_request sharp_s_env] ''s1'') =
     Some [Some [CHR 0xDF]] \<and>
   map_option (map a_answer \<circ> answers)
     (snd (submit_answer (run [Start strong_request sharp_s_env])
        \<lparr>sub_session_id = ''s1'', sub_answer = [CHR 0xDF]\<rparr> quick_env) ''s1'') =
     Some [[CHR 0xDF]] \<and>
   map_option (map a_timed_out \<circ> answers)
     (snd (submit_answer (run [Start strong_request sharp_s_env])
        \<lparr>sub_session_id = ''s1'', sub_answer = [CHR 0xDF]\<rparr> quick_env) ''s1'') =
     Some [False] \<and>
   map_option (map a_is_correct \<circ> answers)
     (snd (submit_answer (run [Start strong_request sharp_s_env])
        \<lparr>sub_session_id = ''s1'', sub_answer = [CHR 0xDF]\<rparr> quick_env) ''s1'') =
     Some [False] \<and>
   map_option (map a_score \<circ> answers)
     (snd (submit_answer (run [Start strong_request sharp_s_env])
        \<lparr>sub_session_id = ''s1'', sub_answer = [CHR 0xDF]\<rparr> quick_env) ''s1'') =
     Some [0] \<and>
   same_letter (CHR 0xDF) (CHR 0xDF)"
proof -
  let ?rq = "\<lparr>sub_session_id = ''s1'', sub_answer = [CHR 0xDF]\<rparr>"
  from sharp_s_start obtain s where
    r: "run [Start strong_request sharp_s_env] = [''s1'' \<mapsto> s]"
    and p: "\<not> blocked s" "current_question_index s = 0" "questions s = [sharp_s_question]"
      "question_start_time s = Some 0" "answers s = []"
    by (elim exE conjE) (rule that)
  have nt: "\<not> question_timed_out s quick_env" by (rule not_timed_out_early[OF p(4)])
  have env: "llm_grade quick_env = Grade_Raises" by (simp add: quick_env_def)
  have g: "grade_submission (questions s ! nat (current_question_index s))
      (strip (sub_answer ?rq)) (question_timed_out s quick_env) (llm_grade quick_env) =
      Inr \<lparr>gr_feedback = ''Incorrect. Correct answer is SS.'', gr_is_correct = False,
          gr_score = 0, gr_confidence = 6 / 10, gr_cheating = 0,
          gr_observation = Some ''Concise on MCQ.''\<rparr>"
    using nt by (simp add: p env strip_sharp_s sharp_s_graded)
  have rec: "map_option answers
      (snd (submit_answer (run [Start strong_request sharp_s_env]) ?rq quick_env) ''s1'') =
      Some [answer_record sharp_s_question [CHR 0xDF] False
        \<lparr>gr_feedback = ''Incorrect. Correct answer is SS.'', gr_is_correct = False,
          gr_score = 0, gr_confidence = 6 / 10, gr_cheating = 0,
          gr_observation = Some ''Concise on MCQ.''\<rparr>]"
    using submit_answer_recorded[of "run [Start strong_request sharp_s_env]" ?rq s quick_env,
        OF _ p(1) _ _ g] r p nt
    by (simp add: strip_sharp_s)
  have a: "map_option (map a_answer \<circ> answers)
      (snd (submit_answer (run [Start strong_request sharp_s_env]) ?rq quick_env) ''s1'') =
      Some [[CHR 0xDF]]"
    using rec by (auto simp: answer_record_def)
  have t: "map_option (map a_timed_out \<circ> answers)
      (snd (submit_answer (run [Start strong_request sharp_s_env]) ?rq quick_env) ''s1'') =
      Some [False]"
    using rec by (auto simp: answer_record_def)
  have c: "map_option (map a_is_correct \<circ> answers)
      (snd (submit_answer (run [Start strong_request sharp_s_env]) ?rq quick_env) ''s1'') =
      Some [False]"
    using rec by (auto simp: answer_record_def)
  have sc: "map_option (map a_score \<circ> answers)
      (snd (submit_answer (run [Start strong_request sharp_s_env]) ?rq quick_env) ''s1'') =
      Some [0]"
    using rec by (auto simp: answer_record_def)
  have qt: "map_option (map q_type \<circ> questions) (run [Start strong_request sharp_s_env] ''s1'') =
      Some [''multiple_choice'']"
    by (simp add: r p sharp_s_question_def)
  have ql: "map_option (map q_correct_answer \<circ> questions)
      (run [Start strong_request sharp_s_env] ''s1'') = Some [Some [CHR 0xDF]]"
    by (simp add: r p sharp_s_question_def)
  have sl: "same_letter (CHR 0xDF) (CHR 0xDF)" by (simp add: same_letter_def)
  from qt ql a t c sc sl show ?thesis by (intro conjI)
qed

theorem submit_terminal_no_mutation_witness:
  "snd (submit_answer (run [Start weak_request fallback_env])
         \<lparr>sub_session_id = ''s1'', sub_answer = ''C''\<rparr> quick_env) =
     run [Start weak_request fallback_env] \<and>
   summary_of (fst (submit_answer (run [Start weak_request fallback_env])
         \<lparr>sub_session_id = ''s1'', sub_answer = ''C''\<rparr> quick_env)) \<noteq> None \<and>
   summary_of (fst (submit_answer
         (snd (submit_answer (run [Start weak_request fallback_env])
            \<lparr>sub_session_id = ''s1'', sub_answer = ''C''\<rparr> quick_env))
         \<lparr>sub_session_id = ''s1'', sub_answer = ''D''\<rparr> quick_env)) =
     summary_of (fst (submit_answer (run [Start weak_request fallback_env])
         \<lparr>sub_session_id = ''s1'', sub_answer = ''C''\<rparr> quick_env))"
proof -
  from weak_start obtain s where
    r: "run [Start weak_request fallback_env] = [''s1'' \<mapsto> s]" and b: "blocked s"
    by blast
  have h1: "run [Start weak_request fallback_env]
      (sub_session_id \<lparr>sub_session_id = ''s1'', sub_answer = ''C''\<rparr>) = Some s"
    by (simp add: r)
  have h2: "blocked s \<or> current_question_index s = int (length (questions s))"
    using b by simp
  have h3: "sub_session_id \<lparr>sub_session_id = ''s1'', sub_answer = ''D''\<rparr> =
      sub_session_id \<lparr>sub_session_id = ''s1'', sub_answer = ''C''\<rparr>" by simp
  note t = submit_terminal_no_mutation[of "run [Start weak_request fallback_env]"
      "\<lparr>sub_session_id = ''s1'', sub_answer = ''C''\<rparr>" s
      "\<lparr>sub_session_id = ''s1'', sub_answer = ''D''\<rparr>" quick_env quick_env, OF h1 h2 h3]
  show ?thesis
  proof (intro conjI)
    show "snd (submit_answer (run [Start weak_request fallback_env])
         \<lparr>sub_session_id = ''s1'', sub_answer = ''C''\<rparr> quick_env) =
       run [Start weak_request fallback_env]"
      by (rule t[THEN conjunct1])
    show "summary_of (fst (submit_answer (run [Start weak_request fallback_env])
         \<lparr>sub_session_id = ''s1'', sub_answer = ''C''\<rparr> quick_env)) \<noteq> None"
      using t[THEN conjunct2, THEN conjunct1] by simp
    show "summary_of (fst (submit_answer
         (snd (submit_answer (run [Start weak_request fallback_env])
            \<lparr>sub_session_id = ''s1'', sub_answer = ''C''\<rparr> quick_env))
         \<lparr>sub_session_id = ''s1'', sub_answer = ''D''\<rparr> quick_env)) =
       summary_of (fst (submit_answer (run [Start weak_request fallback_env])
         \<lparr>sub_session_id = ''s1'', sub_answer = ''C''\<rparr> quick_env))"
      by (rule t[THEN conjunct2, THEN conjunct2, THEN conjunct2])
  qed
qed

lemma str_nat_0: "str_nat 0 = ''0''"
  by (simp add: str_nat.simps digit_char_def)

lemma weak_rejection_reason:
  "rejection_reason weak_request =
     ''Insufficient skill overlap for Analyst. Matched 0 skills; need >= 7 out of 10.''"
proof -
  have o: "overlap (request_overlap weak_request) = 0"
    by (simp add: weak_request_overlap)
  have r: "req_role weak_request = ''Analyst''"
    by (simp add: weak_request_def)
  show ?thesis
    by (simp add: rejection_reason_def o r str_nat_0)
qed

theorem start_interview_gate_witness:
  "score_10 (request_overlap weak_request) < 7 \<and>
   (\<exists>s resp. start_interview Map.empty weak_request fallback_env = (Inr resp, [''s1'' \<mapsto> s]) \<and>
      blocked s \<and> questions s = [] \<and> current_question_index s = - 1 \<and>
      question_start_time s = None \<and>
      sr_blocked resp = Some True \<and> sr_question resp = None \<and>
      sr_reason resp =
        Some ''Insufficient skill overlap for Analyst. Matched 0 skills; need >= 7 out of 10.'') \<and>
   7 \<le> score_10 (request_overlap strong_request) \<and>
   (\<exists>s resp. start_interview Map.empty strong_request fallback_env =
        (Inr resp, [''s1'' \<mapsto> s]) \<and>
      \<not> blocked s \<and> current_question_index s = 0 \<and>
      questions s = [fallback_mcq, fallback_open] \<and>
      question_start_time s = Some 0 \<and> sr_question resp = Some fallback_mcq)"
proof (intro conjI)
  show lt: "score_10 (request_overlap weak_request) < 7"
    by (simp add: weak_request_overlap)
  show ge: "7 \<le> score_10 (request_overlap strong_request)"
    by (simp add: strong_request_score)
  have sid: "new_session_id fallback_env = ''s1''" by (simp add: fallback_env_def)
  from start_interview_gate[of weak_request Map.empty fallback_env] lt
  obtain s where
    st: "start_interview Map.empty weak_request fallback_env =
           (Inr \<lparr>sr_session_id = new_session_id fallback_env,
                 sr_greeting = ''Hello '' @ req_candidate_name weak_request @
                    '', thanks for sharing the resume. '' @ rejection_reason weak_request,
                 sr_blocked = Some True, sr_reason = Some (rejection_reason weak_request),
                 sr_question = None, sr_time_limit_sec = None\<rparr>,
            [new_session_id fallback_env \<mapsto> s])"
    and p: "blocked s" "questions s = []" "current_question_index s = - 1"
      "question_start_time s = None"
    by blast
  show "\<exists>s resp. start_interview Map.empty weak_request fallback_env =
        (Inr resp, [''s1'' \<mapsto> s]) \<and>
      blocked s \<and> questions s = [] \<and> current_question_index s = - 1 \<and>
      question_start_time s = None \<and>
      sr_blocked resp = Some True \<and> sr_question resp = None \<and>
      sr_reason resp =
        Some ''Insufficient skill overlap for Analyst. Matched 0 skills; need >= 7 out of 10.''"
    unfolding st sid
    by (intro exI conjI, rule refl) (use p in \<open>simp_all add: weak_rejection_reason\<close>)
  from start_interview_gate[of strong_request Map.empty fallback_env] ge
  obtain s' resp' where
    st': "start_interview Map.empty strong_request fallback_env =
           (Inr resp', [new_session_id fallback_env \<mapsto> s'])"
    and p': "\<not> blocked s'" "current_question_index s' = 0"
      "question_start_time s' = Some (start_clock fallback_env)"
      "sr_question resp' = Some (hd (questions s'))"
    and q': "questions s' = generate_questions_from_resume (llm_questions fallback_env)
        (req_resume_text strong_request) (req_role strong_request) (req_level strong_request)
        (matched (request_overlap strong_request))"
    by blast
  have q'': "questions s' = [fallback_mcq, fallback_open]"
    unfolding q' by (simp add: fallback_env_def generate_questions_from_resume_def)
  have clock: "start_clock fallback_env = 0" by (simp add: fallback_env_def)
  show "\<exists>s resp. start_interview Map.empty strong_request fallback_env =
        (Inr resp, [''s1'' \<mapsto> s]) \<and>
      \<not> blocked s \<and> current_question_index s = 0 \<and>
      questions s = [fallback_mcq, fallback_open] \<and>
      question_start_time s = Some 0 \<and> sr_question resp = Some fallback_mcq"
    unfolding st' sid
    by (intro exI conjI, rule refl) (use p' q'' in \<open>simp_all add: clock\<close>)
qed

lemma url_answer_graded:
  "grade_submission fallback_mcq (strip ''C http://x'') False Grade_Raises =
     Inr \<lparr>gr_feedback = ''Correct.'', gr_is_correct = True, gr_score = 1,
          gr_confidence = 6 / 10, gr_cheating = 2 / 10,
          gr_observation = Some ''Verbose on MCQ.''\<rparr>"
  by code_simp

lemma plain_answer_graded:
  "grade_submission fallback_mcq (strip ''C'') False Grade_Raises =
     Inr \<lparr>gr_feedback = ''Correct.'', gr_is_correct = True, gr_score = 1,
          gr_confidence = 6 / 10, gr_cheating = 0,
          gr_observation = Some ''Concise on MCQ.''\<rparr>"
  by code_simp

lemma timed_out_graded:
  "grade_submission q t True reply =
     Inr \<lparr>gr_feedback = ''Skipped due to time limit.'', gr_is_correct = False,
          gr_score = 0, gr_confidence = 5 / 10, gr_cheating = 0, gr_observation = None\<rparr>"
  by (simp add: grade_submission_def)

lemma open_answer_ungraded:
  "\<exists>g. grade_submission fallback_open t False Grade_Raises = Inr g"
  by (simp add: grade_submission_def fallback_open_def grade_open_answer_rubric_def
      py_float_def get_or_def Let_def)

lemma first_answer_step:
  assumes "grade_submission fallback_mcq (strip txt) False Grade_Raises = Inr g"
  shows "\<exists>s. run [Start strong_request fallback_env, answer_event txt 10 Grade_Raises] ''s1'' =
            Some s \<and> \<not> blocked s \<and> current_question_index s = 1 \<and>
          questions s = [fallback_mcq, fallback_open] \<and> question_start_time s = Some 10 \<and>
          map a_cheating_delta (answers s) = [gr_cheating g] \<and>
          map a_timed_out (answers s) = [False] \<and> map a_score (answers s) = [gr_score g] \<and>
          map a_answer (answers s) = [strip txt]"
proof -
  from strong_start obtain s0 where
    r: "run [Start strong_request fallback_env] = [''s1'' \<mapsto> s0]"
    and p: "\<not> blocked s0" "current_question_index s0 = 0"
      "questions s0 = [fallback_mcq, fallback_open]"
      "question_start_time s0 = Some 0" "answers s0 = []"
    by blast
  let ?env = "\<lparr>clock_at_check = 10, llm_grade = Grade_Raises, clock_at_next = 10\<rparr>"
  have nt: "\<not> question_timed_out s0 ?env"
    using p(4) by (simp add: question_timed_out_def QUESTION_TIME_LIMIT_SEC_def)
  have "run ([Start strong_request fallback_env] @ [answer_event txt 10 Grade_Raises]) ''s1'' =
      Some (after_submit s0 \<lparr>sub_session_id = ''s1'', sub_answer = txt\<rparr> ?env g)"
    by (rule run_answer_event) (use r p nt assms in simp_all)
  then show ?thesis
    using p nt by (simp add: after_submit_def Let_def answer_record_def)
qed

lemma timeout_run_session:
  "\<exists>s. run timeout_run ''s1'' = Some s \<and> \<not> blocked s \<and> current_question_index s = 1 \<and>
       questions s = [fallback_mcq, fallback_open] \<and> question_start_time s = None \<and>
       map a_timed_out (answers s) = [False, True] \<and> map a_score (answers s) = [1, 0] \<and>
       map a_answer (answers s) = [''C'', '''']"
proof -
  from first_answer_step[OF plain_answer_graded] obtain s1 where
    r: "run [Start strong_request fallback_env, answer_event ''C'' 10 Grade_Raises] ''s1'' = Some s1"
    and p: "\<not> blocked s1" "current_question_index s1 = 1"
      "questions s1 = [fallback_mcq, fallback_open]" "question_start_time s1 = Some 10"
      "map a_timed_out (answers s1) = [False]" "map a_score (answers s1) = [1]"
      "map a_answer (answers s1) = [strip ''C'']"
    by auto
  let ?env = "\<lparr>clock_at_check = 200, llm_grade = Grade_Raises, clock_at_next = 200\<rparr>"
  have t: "question_timed_out s1 ?env"
    using p(4) by (simp add: question_timed_out_def QUESTION_TIME_LIMIT_SEC_def)
  have "run ([Start strong_request fallback_env, answer_event ''C'' 10 Grade_Raises] @
          [answer_event ''late answer'' 200 Grade_Raises]) ''s1'' =
      Some (after_submit s1 \<lparr>sub_session_id = ''s1'', sub_answer = ''late answer''\<rparr> ?env
        \<lparr>gr_feedback = ''Skipped due to time limit.'', gr_is_correct = False,
          gr_score = 0, gr_confidence = 5 / 10, gr_cheating = 0, gr_observation = None\<rparr>)"
    by (rule run_answer_event) (use r p t in \<open>simp_all add: timed_out_graded\<close>)
  then show ?thesis
    using p t
    by (simp add: timeout_run_def after_submit_def Let_def answer_record_def strip_examples)
qed

theorem index_within_bounds_witness:
  "(\<exists>s. run [Start strong_request fallback_env, answer_event ''C'' 10 Grade_Raises] ''s1'' =
          Some s \<and> \<not> blocked s \<and> current_question_index s = 1 \<and>
        length (questions s) = 2 \<and>
        current_question_index s \<le> int (length (questions s))) \<and>
   (\<exists>s. run [Start weak_request fallback_env] ''s1'' = Some s \<and> blocked s \<and>
        current_question_index s = - 1 \<and> questions s = [] \<and>
        current_question_index s \<le> int (length (questions s)))"
proof
  from first_answer_step[OF plain_answer_graded] obtain s where
    r: "run [Start strong_request fallback_env, answer_event ''C'' 10 Grade_Raises] ''s1'' = Some s"
    and p: "\<not> blocked s" "current_question_index s = 1"
      "questions s = [fallback_mcq, fallback_open]"
    by auto
  from index_within_bounds[OF r] p
  show "\<exists>s. run [Start strong_request fallback_env, answer_event ''C'' 10 Grade_Raises] ''s1'' =
          Some s \<and> \<not> blocked s \<and> current_question_index s = 1 \<and>
        length (questions s) = 2 \<and>
        current_question_index s \<le> int (length (questions s))"
    using r by simp
next
  from weak_start obtain s where
    r: "run [Start weak_request fallback_env] = [''s1'' \<mapsto> s]"
    and p: "blocked s" "questions s = []" "current_question_index s = - 1"
    by blast
  from r have r': "run [Start weak_request fallback_env] ''s1'' = Some s" by simp
  from index_within_bounds[OF r'] p
  show "\<exists>s. run [Start weak_request fallback_env] ''s1'' = Some s \<and> blocked s \<and>
        current_question_index s = - 1 \<and> questions s = [] \<and>
        current_question_index s \<le> int (length (questions s))"
    using r' by simp
qed

theorem cheating_score_is_capped_sum_witness:
  "(\<exists>s. run url_answer_run ''s1'' = Some s \<and>
        map a_cheating_delta (answers s) = [2 / 10] \<and>
        cheating_score_0_1 (evaluation s) = 2 / 10) \<and>
   (\<exists>s. run [Start weak_request fallback_env] ''s1'' = Some s \<and> answers s = [] \<and>
        cheating_score_0_1 (evaluation s) = 0)"
proof
  from first_answer_step[OF url_answer_graded] obtain s where
    r: "run url_answer_run ''s1'' = Some s"
    and p: "map a_cheating_delta (answers s) = [2 / 10]"
    by (auto simp: url_answer_run_def)
  from cheating_score_is_capped_sum[OF r] p
  have "cheating_score_0_1 (evaluation s) = 2 / 10" by simp
  with r p show "\<exists>s. run url_answer_run ''s1'' = Some s \<and>
        map a_cheating_delta (answers s) = [2 / 10] \<and>
        cheating_score_0_1 (evaluation s) = 2 / 10"
    by (intro exI[of _ s] conjI)
next
  from weak_start obtain s where
    r: "run [Start weak_request fallback_env] = [''s1'' \<mapsto> s]"
    and p: "answers s = []"
    by blast
  from r have r': "run [Start weak_request fallback_env] ''s1'' = Some s" by simp
  from cheating_score_is_capped_sum[OF r'] p
  have "cheating_score_0_1 (evaluation s) = 0" by simp
  with r' p show "\<exists>s. run [Start weak_request fallback_env] ''s1'' = Some s \<and>
        answers s = [] \<and> cheating_score_0_1 (evaluation s) = 0"
    by (intro exI[of _ s] conjI)
qed

text \<open>What a submission after the time limit does to an active session, whatever the
  answer text and the grader would say: the answer is recorded as skipped, nothing is
  observed, the cheating delta is 0; the index moves on when a question remains, and stays
  where it is, with the start timestamp cleared, on the last question.\<close>

lemma timed_out_submit_effect:
  assumes "sessions (sub_session_id request) = Some session"
    and "\<not> blocked session"
    and "0 \<le> current_question_index session"
    and "current_question_index session < int (length (questions session))"
    and "question_timed_out session env"
  shows "\<exists>s'. snd (submit_answer sessions request env) =
             sessions(sub_session_id request \<mapsto> s') \<and>
           (\<exists>a. answers s' = answers session @ [a] \<and> a_timed_out a \<and> a_score a = 0 \<and>
                a_answer a = [] \<and> \<not> a_is_correct a \<and> a_cheating_delta a = 0) \<and>
           soft_skill_observations s' = soft_skill_observations session \<and>
           cheating_signals s' = cheating_signals session @ [0] \<and>
           questions s' = questions session \<and>
           current_question_index s' =
             (if current_question_index session + 1 < int (length (questions session))
              then current_question_index session + 1 else current_question_index session) \<and>
           question_start_time s' =
             (if current_question_index session + 1 < int (length (questions session))
              then Some (clock_at_next env) else None)"
proof -
  let ?g = "\<lparr>gr_feedback = ''Skipped due to time limit.'', gr_is_correct = False,
          gr_score = 0, gr_confidence = 5 / 10, gr_cheating = 0, gr_observation = None\<rparr>"
  have g: "grade_submission (questions session ! nat (current_question_index session))
      (strip (sub_answer request)) (question_timed_out session env) (llm_grade env) = Inr ?g"
    using assms(5) by (simp add: timed_out_graded)
  have st: "snd (submit_answer sessions request env) =
      sessions(sub_session_id request \<mapsto> after_submit session request env ?g)"
    by (rule submit_answer_active[of sessions request session env ?g, OF assms(1-4) g])
  show ?thesis
    unfolding st
    by (rule exI[of _ "after_submit session request env ?g"])
       (use assms(5) in \<open>simp add: after_submit_def Let_def answer_record_def\<close>)
qed

text \<open>
  Claim C4 on the code. A submission that arrives after the time limit is recorded with
  \<open>timed_out = True\<close>, score 0 and the empty answer text, and on the last question the
  start timestamp is cleared; but the index stays at the last question instead of moving
  to the question count, so that a further submission is graded and recorded again.
\<close>
theorem timed_out_last_question_keeps_index:
  "(\<exists>s. run timeout_run ''s1'' = Some s \<and> \<not> blocked s \<and>
        current_question_index s = 1 \<and>
        questions s = [fallback_mcq, fallback_open] \<and> question_start_time s = None \<and>
        map a_timed_out (answers s) = [False, True] \<and> map a_score (answers s) = [1, 0] \<and>
        map a_answer (answers s) = [''C'', '''']) \<and>
   (\<exists>s. run (timeout_run @ [answer_event ''again'' 300 Grade_Raises]) ''s1'' = Some s \<and>
        length (questions s) = 2 \<and> length (answers s) = 3 \<and>
        current_question_index s = 1)"
proof
  show "\<exists>s. run timeout_run ''s1'' = Some s \<and> \<not> blocked s \<and>
        current_question_index s = 1 \<and>
        questions s = [fallback_mcq, fallback_open] \<and> question_start_time s = None \<and>
        map a_timed_out (answers s) = [False, True] \<and> map a_score (answers s) = [1, 0] \<and>
        map a_answer (answers s) = [''C'', '''']"
    by (rule timeout_run_session)
next
  from timeout_run_session obtain s2 where
    r: "run timeout_run ''s1'' = Some s2"
    and p: "\<not> blocked s2" "current_question_index s2 = 1"
      "questions s2 = [fallback_mcq, fallback_open]" "question_start_time s2 = None"
      "map a_timed_out (answers s2) = [False, True]"
    by (elim exE conjE) (rule that)
  have "length (map a_timed_out (answers s2)) = 2" by (simp only: p(5)) simp
  then have len: "length (answers s2) = 2" by simp
  let ?env = "\<lparr>clock_at_check = 300, llm_grade = Grade_Raises, clock_at_next = 300\<rparr>"
  have nt: "\<not> question_timed_out s2 ?env"
    using p(4) by (simp add: question_timed_out_def)
  from open_answer_ungraded[of "strip ''again''"] obtain g where
    g: "grade_submission fallback_open (strip ''again'') False Grade_Raises = Inr g"
    by blast
  have "run (timeout_run @ [answer_event ''again'' 300 Grade_Raises]) ''s1'' =
      Some (after_submit s2 \<lparr>sub_session_id = ''s1'', sub_answer = ''again''\<rparr> ?env g)"
    by (rule run_answer_event) (use r p nt g in simp_all)
  then show "\<exists>s. run (timeout_run @ [answer_event ''again'' 300 Grade_Raises]) ''s1'' = Some s \<and>
        length (questions s) = 2 \<and> length (answers s) = 3 \<and>
        current_question_index s = 1"
    using p len by (simp add: after_submit_def Let_def)
qed

theorem evaluation_passed_iff_four_gates_witness:
  "passed (evaluation passing_session) \<and>
   (required_skill_score_10 (evaluation low_required_session) < 65 / 10 \<and>
    soft_skills_score_10 (evaluation low_required_session) \<ge> 55 / 10 \<and>
    mean_confidence low_required_session \<ge> 4 / 10 \<and>
    capped_cheating low_required_session \<le> 75 / 100 \<and>
    \<not> passed (evaluation low_required_session)) \<and>
   (required_skill_score_10 (evaluation low_soft_session) \<ge> 65 / 10 \<and>
    soft_skills_score_10 (evaluation low_soft_session) < 55 / 10 \<and>
    mean_confidence low_soft_session \<ge> 4 / 10 \<and>
    capped_cheating low_soft_session \<le> 75 / 100 \<and>
    \<not> passed (evaluation low_soft_session)) \<and>
   (required_skill_score_10 (evaluation low_confidence_session) \<ge> 65 / 10 \<and>
    soft_skills_score_10 (evaluation low_confidence_session) \<ge> 55 / 10 \<and>
    mean_confidence low_confidence_session < 4 / 10 \<and>
    capped_cheating low_confidence_session \<le> 75 / 100 \<and>
    \<not> passed (evaluation low_confidence_session)) \<and>
   (required_skill_score_10 (evaluation high_cheating_session) \<ge> 65 / 10 \<and>
    soft_skills_score_10 (evaluation high_cheating_session) \<ge> 55 / 10 \<and>
    mean_confidence high_cheating_session \<ge> 4 / 10 \<and>
    capped_cheating high_cheating_session > 75 / 100 \<and>
    \<not> passed (evaluation high_cheating_session))"
proof -
  have p: "required_skill_score_10 (evaluation passing_session) \<ge> 65 / 10"
    "soft_skills_score_10 (evaluation passing_session) \<ge> 55 / 10"
    "mean_confidence passing_session \<ge> 4 / 10"
    "capped_cheating passing_session \<le> 75 / 100"
    by code_simp+
  have r: "required_skill_score_10 (evaluation low_required_session) < 65 / 10"
    "soft_skills_score_10 (evaluation low_required_session) \<ge> 55 / 10"
    "mean_confidence low_required_session \<ge> 4 / 10"
    "capped_cheating low_required_session \<le> 75 / 100"
    by code_simp+
  have s: "required_skill_score_10 (evaluation low_soft_session) \<ge> 65 / 10"
    "soft_skills_score_10 (evaluation low_soft_session) < 55 / 10"
    "mean_confidence low_soft_session \<ge> 4 / 10"
    "capped_cheating low_soft_session \<le> 75 / 100"
    by code_simp+
  have c: "required_skill_score_10 (evaluation low_confidence_session) \<ge> 65 / 10"
    "soft_skills_score_10 (evaluation low_confidence_session) \<ge> 55 / 10"
    "mean_confidence low_confidence_session < 4 / 10"
    "capped_cheating low_confidence_session \<le> 75 / 100"
    by code_simp+
  have h: "required_skill_score_10 (evaluation high_cheating_session) \<ge> 65 / 10"
    "soft_skills_score_10 (evaluation high_cheating_session) \<ge> 55 / 10"
    "mean_confidence high_cheating_session \<ge> 4 / 10"
    "capped_cheating high_cheating_session > 75 / 100"
    by code_simp+
  show ?thesis
    using evaluation_passed_iff_four_gates[of passing_session]
      evaluation_passed_iff_four_gates[of low_required_session]
      evaluation_passed_iff_four_gates[of low_soft_session]
      evaluation_passed_iff_four_gates[of low_confidence_session]
      evaluation_passed_iff_four_gates[of high_cheating_session]
      p r s c h
    by blast
qed

theorem submit_unknown_session_witness:
  "submit_answer Map.empty \<lparr>sub_session_id = ''s1'', sub_answer = ''C''\<rparr>
     \<lparr>clock_at_check = 10, llm_grade = Grade_Raises, clock_at_next = 10\<rparr> =
   (Inl (HTTPException 404 ''Session not found.''), Map.empty)"
  by (rule submit_unknown_session) simp

end
